theory Spec2Isabelle
  imports Complex_Main "HOL-Library.Word"
begin

section \<open>JavaScript values\<close>

text \<open>
  A JavaScript string is a sequence of UTF-16 code units. String literals of the source
  are written with \<open>js\<close>, which maps every ASCII character to its code unit.
\<close>

type_synonym jsstring = "16 word list"

definition js :: "string \<Rightarrow> jsstring" where
  "js s = map of_char s"

text \<open>
  The value that \<open>response.json()\<close> resolves to. A number is kept as the rational it
  denotes; the source only ever tests a number for being zero. The value \<open>undefined\<close>
  is not JSON: the result of a property read is a \<open>json option\<close>, with \<open>None\<close> for
  \<open>undefined\<close>.
\<close>

datatype json =
    JNull
  | JBool bool
  | JNum rat
  | JStr jsstring
  | JArr "json list"
  | JObj "(jsstring \<times> json) list"

text \<open>
  What a \<open>catch\<close> clause receives: a \<open>TypeError\<close> raised by the language itself, or the
  rejection of an awaited promise of a library, named by its message.
\<close>

datatype js_error = TypeError | Rejected jsstring

text \<open>
  \<open>o.k\<close> for a receiver that is neither \<open>null\<close> nor \<open>undefined\<close> and a key that
  no prototype defines (\<open>ParsedResults\<close>, \<open>ParsedText\<close>, \<open>result\<close>). Of duplicate
  keys in an object the last one wins, as in \<open>JSON.parse\<close>.
\<close>

fun get_prop :: "jsstring \<Rightarrow> json \<Rightarrow> json option" where
  "get_prop k (JObj kvs) = map_of (rev kvs) k"
| "get_prop k _ = None"

text \<open>\<open>o[0]\<close> for a receiver that is neither \<open>null\<close> nor \<open>undefined\<close>.\<close>

fun index0 :: "json \<Rightarrow> json option" where
  "index0 (JArr xs) = (case xs of [] \<Rightarrow> None | x # _ \<Rightarrow> Some x)"
| "index0 (JStr s) = (case s of [] \<Rightarrow> None | c # _ \<Rightarrow> Some (JStr [c]))"
| "index0 (JObj kvs) = map_of (rev kvs) (js ''0'')"
| "index0 _ = None"

text \<open>The truthiness that \<open>||\<close> and \<open>if\<close> test.\<close>

fun truthy :: "json option \<Rightarrow> bool" where
  "truthy None = False"
| "truthy (Some JNull) = False"
| "truthy (Some (JBool b)) = b"
| "truthy (Some (JNum r)) = (r \<noteq> 0)"
| "truthy (Some (JStr s)) = (s \<noteq> [])"
| "truthy (Some (JArr _)) = True"
| "truthy (Some (JObj _)) = True"

text \<open>
  \<open>String.prototype.trim\<close> removes the code units of the ECMAScript productions
  WhiteSpace and LineTerminator from both ends.
\<close>

definition is_white_space :: "16 word \<Rightarrow> bool" where
  "is_white_space c \<longleftrightarrow>
     c = 0x9 \<or> c = 0xA \<or> c = 0xB \<or> c = 0xC \<or> c = 0xD \<or> c = 0x20 \<or> c = 0xA0 \<or>
     c = 0x1680 \<or> (0x2000 \<le> c \<and> c \<le> 0x200A) \<or> c = 0x2028 \<or> c = 0x2029 \<or>
     c = 0x202F \<or> c = 0x205F \<or> c = 0x3000 \<or> c = 0xFEFF"

definition trim :: "jsstring \<Rightarrow> jsstring" where
  "trim s = rev (dropWhile is_white_space (rev (dropWhile is_white_space s)))"


section \<open>Numbers\<close>

text \<open>
  The quality factor is a JavaScript number: an IEEE 754 double. A finite double is the
  rational it denotes, and an arithmetic operation is the exact operation followed by
  rounding to the nearest double, ties to the even significand (\<open>dbl\<close>). The values of
  the source stay far from the overflow and subnormal ranges, which are not modelled.
\<close>

function ilog2 :: "int \<Rightarrow> int" where
  "ilog2 n = (if n < 2 then 0 else 1 + ilog2 (n div 2))"
  by pat_completeness auto
termination
  by (relation "measure nat") auto

definition pow2 :: "int \<Rightarrow> rat" where
  "pow2 e = (if 0 \<le> e then 2 ^ nat e else 1 / 2 ^ nat (- e))"

text \<open>The exponent \<open>e\<close> with \<open>2^e \<le> x < 2^(e+1)\<close>, for a positive \<open>x\<close>.\<close>

definition binade :: "rat \<Rightarrow> int" where
  "binade x =
     (let (p, q) = quotient_of x;
          e = ilog2 p - ilog2 q
      in if pow2 e \<le> x then e else e - 1)"

definition round_half_even :: "rat \<Rightarrow> int" where
  "round_half_even m =
     (let f = \<lfloor>m\<rfloor>; r = m - of_int f
      in if r < 1 / 2 then f
         else if 1 / 2 < r then f + 1
         else if even f then f else f + 1)"

definition dbl_pos :: "rat \<Rightarrow> rat" where
  "dbl_pos x = (let u = pow2 (binade x - 52) in of_int (round_half_even (x / u)) * u)"

definition dbl :: "rat \<Rightarrow> rat" where
  "dbl x = (if x = 0 then 0 else if 0 < x then dbl_pos x else - dbl_pos (- x))"


section \<open>The libraries the screen calls\<close>

datatype action = Resize nat

datatype save_format = JPEG | PNG

record save_options =
  compress :: rat
  format :: save_format
  want_base64 :: bool

record image_result =
  uri :: jsstring
  base64 :: "jsstring option"

datatype body =
    FormData "(jsstring \<times> jsstring) list"
  | JsonBody json

datatype request = Post jsstring body

text \<open>
  A response of \<open>fetch\<close>: its HTTP status and what \<open>response.json()\<close> settles to,
  a rejection when the body is not JSON.
\<close>

record response =
  status :: nat
  json_body :: "js_error + json"

text \<open>
  Every awaited library call either rejects (\<open>Inl\<close>) or resolves (\<open>Inr\<close>).
  \<open>getInfoAsync\<close> resolves to the \<open>size\<close> field of the file information, which may
  be missing.
\<close>

record env =
  manipulateAsync :: "jsstring \<Rightarrow> action list \<Rightarrow> save_options \<Rightarrow> js_error + image_result"
  getInfoAsync :: "jsstring \<Rightarrow> js_error + nat option"
  readAsStringAsync :: "jsstring \<Rightarrow> js_error + jsstring"
  fetch :: "request \<Rightarrow> js_error + response"


section \<open>Size reduction of \<open>extractText\<close>, first listing (lines 73 to 97)\<close>

text \<open>
  Modelled from the spec: \<open>MAX_FILE_SIZE\<close> is used by the loop but declared nowhere in
  the source file; the spec gives the byte ceiling as 1,048,576 bytes. The source reads
  the file size through \<open>FileSystem.getInfoAsync\<close>, a name the file does not import
  either; it is taken here as one more library call of the environment.
\<close>

definition MAX_FILE_SIZE :: nat where
  "MAX_FILE_SIZE = 1048576"

definition getFileSize :: "env \<Rightarrow> jsstring \<Rightarrow> js_error + nat" where
  "getFileSize env fileUri =
     (case getInfoAsync env fileUri of
        Inl e \<Rightarrow> Inl e
      | Inr info_size \<Rightarrow> Inr (case info_size of None \<Rightarrow> 0 | Some n \<Rightarrow> n))"

text \<open>
  The variables of the loop: \<open>compressed.uri\<close>, \<open>size\<close> and \<open>quality\<close>. The field
  \<open>r_trail\<close> is not in the source: it records, oldest first, the quality and the
  measured size of every candidate encoded so far.
\<close>

record reducer =
  r_uri :: jsstring
  r_size :: nat
  r_quality :: rat
  r_trail :: "(rat \<times> nat) list"

definition jpeg_options :: "rat \<Rightarrow> save_options" where
  "jpeg_options q = \<lparr>compress = q, format = JPEG, want_base64 = False\<rparr>"

partial_function (option) reduce_loop :: "env \<Rightarrow> reducer \<Rightarrow> (js_error + reducer) option" where
  "reduce_loop env r =
     (if MAX_FILE_SIZE < r_size r \<and> dbl (1 / 10) < r_quality r then
        (case manipulateAsync env (r_uri r) [] (jpeg_options (r_quality r)) of
           Inl e \<Rightarrow> Some (Inl e)
         | Inr img \<Rightarrow>
             (case getFileSize env (uri img) of
                Inl e \<Rightarrow> Some (Inl e)
              | Inr s \<Rightarrow>
                  reduce_loop env
                    \<lparr>r_uri = uri img, r_size = s,
                     r_quality = dbl (r_quality r - dbl (1 / 10)),
                     r_trail = r_trail r @ [(r_quality r, s)]\<rparr>))
      else Some (Inr r))"

definition sizeReducer :: "env \<Rightarrow> jsstring \<Rightarrow> (js_error + reducer) option" where
  "sizeReducer env u =
     (case manipulateAsync env u [Resize 1280] (jpeg_options (dbl (7 / 10))) of
        Inl e \<Rightarrow> Some (Inl e)
      | Inr img \<Rightarrow>
          (case getFileSize env (uri img) of
             Inl e \<Rightarrow> Some (Inl e)
           | Inr s \<Rightarrow>
               reduce_loop env
                 \<lparr>r_uri = uri img, r_size = s, r_quality = dbl (6 / 10),
                  r_trail = [(dbl (7 / 10), s)]\<rparr>))"


section \<open>Size reduction of \<open>extractText\<close>, second listing (lines 321 to 365)\<close>

definition maxBytes :: nat where
  "maxBytes = 1024 * 1024"

text \<open>\<open>Math.ceil((b64.length * 3) / 4)\<close>.\<close>

definition calcBytes :: "jsstring \<Rightarrow> nat" where
  "calcBytes b64 = (length b64 * 3 + 3) div 4"

text \<open>
  The variables of the loop: \<open>quality\<close> and \<open>manipulatedBase64\<close>. The field
  \<open>c_trail\<close> is not in the source: it records, oldest first, the quality and the
  \<open>base64\<close> field of every result the manipulator resolved to.
\<close>

record compressor =
  c_quality :: rat
  c_manipulated :: "jsstring option"
  c_trail :: "(rat \<times> jsstring option) list"

partial_function (option) compress_loop ::
  "env \<Rightarrow> jsstring \<Rightarrow> compressor \<Rightarrow> (js_error + compressor) option" where
  "compress_loop env u c =
     (if dbl (1 / 10) \<le> c_quality c then
        (case manipulateAsync env u []
                \<lparr>compress = c_quality c, format = JPEG, want_base64 = True\<rparr> of
           Inl e \<Rightarrow> Some (Inl e)
         | Inr result \<Rightarrow>
             (let trail = c_trail c @ [(c_quality c, base64 result)] in
              if truthy (map_option JStr (base64 result)) then
                (let m = the (base64 result) in
                 if calcBytes m \<le> maxBytes then
                   Some (Inr \<lparr>c_quality = c_quality c, c_manipulated = Some m,
                              c_trail = trail\<rparr>)
                 else
                   compress_loop env u
                     \<lparr>c_quality = dbl (c_quality c - dbl (15 / 100)),
                      c_manipulated = Some m, c_trail = trail\<rparr>)
              else Some (Inr (c\<lparr>c_trail := trail\<rparr>))))
      else Some (Inr c))"


section \<open>The state of the screen\<close>

text \<open>
  The three \<open>useState\<close> cells that the pipeline writes, and what it sends out:
  the alerts shown, the errors given to \<open>console.error\<close>, the messages given to
  \<open>console.warn\<close> and the requests given to \<open>fetch\<close>, each oldest first.
  \<open>console.log\<close> is left out.
\<close>

record ui =
  extractedText :: jsstring
  aiResult :: json
  loading :: bool
  alerts :: "(jsstring \<times> jsstring) list"
  errors :: "js_error list"
  warnings :: "jsstring list"
  requests :: "request list"

definition initial_ui :: ui where
  "initial_ui =
     \<lparr>extractedText = [], aiResult = JStr [], loading = False, alerts = [], errors = [],
      warnings = [], requests = []\<rparr>"


section \<open>\<open>analyzeWithAI\<close>\<close>

definition analyze_request :: "jsstring \<Rightarrow> request" where
  "analyze_request text =
     Post (js ''https://your-secure-api.com/api/analyze'')
       (JsonBody (JObj [(js ''text'', JStr text)]))"

text \<open>
  \<open>analyzeWithAI\<close> up to its first \<open>await\<close>: the busy flag is set and the request
  is handed to \<open>fetch\<close>.
\<close>

definition analyze_begin :: "jsstring \<Rightarrow> ui \<Rightarrow> ui" where
  "analyze_begin text s = s\<lparr>loading := True, requests := requests s @ [analyze_request text]\<rparr>"

text \<open>
  \<open>analyzeWithAI\<close> from its first \<open>await\<close> on: the response is read,
  \<open>data.result || "No result from AI."\<close> is stored, a rejection or a \<open>TypeError\<close>
  (reading \<open>result\<close> of \<open>null\<close>) goes to the \<open>catch\<close> clause, and \<open>finally\<close>
  clears the busy flag.
\<close>

definition analyze_resume :: "env \<Rightarrow> jsstring \<Rightarrow> ui \<Rightarrow> ui" where
  "analyze_resume env text s =
     (let caught = (\<lambda>e. s\<lparr>errors := errors s @ [e],
                             alerts := alerts s @
                               [(js ''Error'', js ''Could not connect to AI service.'')]\<rparr>);
          s' =
            (case fetch env (analyze_request text) of
               Inl e \<Rightarrow> caught e
             | Inr res \<Rightarrow>
                 (case json_body res of
                    Inl e \<Rightarrow> caught e
                  | Inr data \<Rightarrow>
                      if data = JNull then caught TypeError
                      else s\<lparr>aiResult :=
                               (case get_prop (js ''result'') data of
                                  None \<Rightarrow> JStr (js ''No result from AI.'')
                                | Some v \<Rightarrow> if truthy (Some v) then v else JStr (js ''No result from AI.''))\<rparr>))
      in s'\<lparr>loading := False\<rparr>)"

definition analyzeWithAI :: "env \<Rightarrow> jsstring \<Rightarrow> ui \<Rightarrow> ui" where
  "analyzeWithAI env text s = analyze_resume env text (analyze_begin text s)"


section \<open>The OCR request and its answer (lines 106 to 127, and 367 to 381)\<close>

definition ocr_request :: "jsstring \<Rightarrow> request" where
  "ocr_request b64 =
     Post (js ''https://api.ocr.space/parse/image'')
       (FormData [(js ''apikey'', js ''K85683965888957''),
                  (js ''base64Image'', js ''data:image/jpeg;base64,'' @ b64)])"

text \<open>
  One step of an optional chain \<open>v?.f\<close>: \<open>undefined\<close> when \<open>v\<close> is \<open>undefined\<close>
  or \<open>null\<close>.
\<close>

fun opt_chain :: "json option \<Rightarrow> (json \<Rightarrow> json option) \<Rightarrow> json option" where
  "opt_chain None f = None"
| "opt_chain (Some JNull) f = None"
| "opt_chain (Some v) f = f v"

text \<open>
  \<open>data.ParsedResults?.[0]?.ParsedText?.trim() || ""\<close>. Reading a property of
  \<open>null\<close> throws, and so does calling \<open>trim\<close> on a value that is not a string.
\<close>

definition parsedText :: "json \<Rightarrow> js_error + jsstring" where
  "parsedText data =
     (if data = JNull then Inl TypeError
      else
        (case opt_chain (opt_chain (get_prop (js ''ParsedResults'') data) index0)
                (get_prop (js ''ParsedText'')) of
           None \<Rightarrow> Inr []
         | Some JNull \<Rightarrow> Inr []
         | Some (JStr s) \<Rightarrow> Inr (if trim s = [] then [] else trim s)
         | Some _ \<Rightarrow> Inl TypeError))"

text \<open>The \<open>catch\<close> clause of \<open>extractText\<close>.\<close>

definition caught_extract :: "js_error \<Rightarrow> ui \<Rightarrow> ui" where
  "caught_extract e s =
     s\<lparr>errors := errors s @ [e],
       alerts := alerts s @ [(js ''Error'', js ''Failed to extract text.'')]\<rparr>"

text \<open>What the awaited \<open>fetch\<close> and \<open>response.json()\<close> and the extraction give.\<close>

definition ocr_text :: "env \<Rightarrow> jsstring \<Rightarrow> js_error + jsstring" where
  "ocr_text env b64 =
     (case fetch env (ocr_request b64) of
        Inl e \<Rightarrow> Inl e
      | Inr res \<Rightarrow> (case json_body res of Inl e \<Rightarrow> Inl e | Inr data \<Rightarrow> parsedText data))"

text \<open>
  From the OCR request to the end of \<open>extractText\<close>. The call \<open>analyzeWithAI(text)\<close>
  is not awaited: it runs to its first \<open>await\<close>, then the \<open>finally\<close> clause of
  \<open>extractText\<close> clears the busy flag, and the rest of \<open>analyzeWithAI\<close> runs when
  its response arrives.
\<close>

definition ocr_stage :: "env \<Rightarrow> jsstring \<Rightarrow> ui \<Rightarrow> ui" where
  "ocr_stage env b64 s =
     (let s2 = s\<lparr>requests := requests s @ [ocr_request b64]\<rparr> in
      case ocr_text env b64 of
        Inl e \<Rightarrow> (caught_extract e s2)\<lparr>loading := False\<rparr>
      | Inr text \<Rightarrow>
          (let s3 = s2\<lparr>extractedText := text\<rparr> in
           if text \<noteq> [] then
             analyze_resume env text ((analyze_begin text s3)\<lparr>loading := False\<rparr>)
           else
             (s3\<lparr>alerts := alerts s3 @
                   [(js ''No text detected'', js ''Try another image with clearer text.'')]\<rparr>)
               \<lparr>loading := False\<rparr>))"


section \<open>\<open>extractText\<close>\<close>

text \<open>The first three statements of both listings.\<close>

definition start_run :: "ui \<Rightarrow> ui" where
  "start_run s = s\<lparr>loading := True, extractedText := [], aiResult := JStr []\<rparr>"

text \<open>First listing (lines 67 to 134). \<open>None\<close>: the loop never ends.\<close>

definition extractText :: "env \<Rightarrow> jsstring \<Rightarrow> ui \<Rightarrow> ui option" where
  "extractText env u s =
     (let s1 = start_run s in
      case sizeReducer env u of
        None \<Rightarrow> None
      | Some (Inl e) \<Rightarrow> Some ((caught_extract e s1)\<lparr>loading := False\<rparr>)
      | Some (Inr r) \<Rightarrow>
          (case readAsStringAsync env (r_uri r) of
             Inl e \<Rightarrow> Some ((caught_extract e s1)\<lparr>loading := False\<rparr>)
           | Inr b64 \<Rightarrow> Some (ocr_stage env b64 s1)))"

text \<open>
  The compression step of the second listing (lines 321 to 365): the base64 text that
  goes into the request. An exception inside the step is caught there, with a warning,
  and the original image is kept. The dynamic \<open>import\<close> of the image library at the
  start of the step is taken to succeed.
\<close>

definition payload_v2 :: "env \<Rightarrow> jsstring \<Rightarrow> jsstring \<Rightarrow> ui \<Rightarrow> (jsstring \<times> ui) option" where
  "payload_v2 env u b64 s =
     (if maxBytes < calcBytes b64 then
        (case compress_loop env u
                \<lparr>c_quality = dbl (9 / 10), c_manipulated = None, c_trail = []\<rparr> of
           None \<Rightarrow> None
         | Some (Inl e) \<Rightarrow>
             Some (b64, s\<lparr>warnings := warnings s @
                     [js ''Image compression step failed, continuing with original image:'']\<rparr>)
         | Some (Inr c) \<Rightarrow>
             (if truthy (map_option JStr (c_manipulated c)) then
                Some (the (c_manipulated c), s)
              else
                Some (b64, s\<lparr>warnings := warnings s @
                        [js ''Could not compress image via ImageManipulator; sending original (may be large).'']\<rparr>)))
      else Some (b64, s))"

text \<open>Second listing (lines 309 to 388).\<close>

definition extractText_v2 :: "env \<Rightarrow> jsstring \<Rightarrow> ui \<Rightarrow> ui option" where
  "extractText_v2 env u s =
     (let s1 = start_run s in
      case readAsStringAsync env u of
        Inl e \<Rightarrow> Some ((caught_extract e s1)\<lparr>loading := False\<rparr>)
      | Inr b64 \<Rightarrow>
          (case payload_v2 env u b64 s1 of
             None \<Rightarrow> None
           | Some (p, s2) \<Rightarrow> Some (ocr_stage env p s2)))"


section \<open>The quality sequences\<close>

text \<open>
  The value of \<open>quality\<close> at the start of iteration \<open>k + 1\<close> of the loop of the first
  listing (\<open>0.6\<close>, then \<open>quality -= 0.1\<close>), and of the second listing (\<open>0.9\<close>,
  then \<open>quality -= 0.15\<close>).
\<close>

fun loop_quality :: "nat \<Rightarrow> rat" where
  "loop_quality 0 = dbl (6 / 10)"
| "loop_quality (Suc k) = dbl (loop_quality k - dbl (1 / 10))"

fun loop_quality_v2 :: "nat \<Rightarrow> rat" where
  "loop_quality_v2 0 = dbl (9 / 10)"
| "loop_quality_v2 (Suc k) = dbl (loop_quality_v2 k - dbl (15 / 100))"

text \<open>The number of times the body of the loop of the first listing has run.\<close>

definition iterations :: "reducer \<Rightarrow> nat" where
  "iterations r = length (r_trail r) - 1"

text \<open>
  An assumption on the image library, not a property of the source: encoding a file
  again never gives a larger file.
\<close>

definition encoder_shrinks :: "env \<Rightarrow> bool" where
  "encoder_shrinks env \<longleftrightarrow>
     (\<forall>u q img s s'.
        manipulateAsync env u [] (jpeg_options q) = Inr img \<longrightarrow>
        getFileSize env u = Inr s \<longrightarrow>
        getFileSize env (uri img) = Inr s' \<longrightarrow> s' \<le> s)"

text \<open>What holds of the variables of the loop before every test of its condition.\<close>

definition reducer_inv :: "env \<Rightarrow> nat \<Rightarrow> reducer \<Rightarrow> bool" where
  "reducer_inv env k r \<longleftrightarrow>
     map fst (r_trail r) = dbl (7 / 10) # map loop_quality [0..<k] \<and>
     snd (last (r_trail r)) = r_size r \<and>
     getFileSize env (r_uri r) = Inr (r_size r) \<and>
     (encoder_shrinks env \<longrightarrow> sorted_wrt (\<ge>) (map snd (r_trail r)))"

text \<open>What holds of the result of the loop of the second listing.\<close>

definition compressor_post :: "compressor \<Rightarrow> bool" where
  "compressor_post c \<longleftrightarrow>
     length (c_trail c) \<le> 6 \<and>
     map fst (c_trail c) = map loop_quality_v2 [0..<length (c_trail c)] \<and>
     (\<forall>m. c_manipulated c = Some m \<longrightarrow>
        calcBytes m \<le> maxBytes \<or>
        (length (c_trail c) = 6 \<and> c_quality c < dbl (1 / 10)) \<or>
        (c_trail c \<noteq> [] \<and> \<not> truthy (map_option JStr (snd (last (c_trail c))))))"


section \<open>The candidates of the first listing and the variants of the second\<close>

text \<open>
  The URI of candidate \<open>k\<close> of the first listing: candidate 0 is the resized image
  encoded at quality 0.7, candidate \<open>k + 1\<close> is candidate \<open>k\<close> encoded again at the
  quality of iteration \<open>k + 1\<close>.
\<close>

fun candidate :: "env \<Rightarrow> jsstring \<Rightarrow> nat \<Rightarrow> js_error + jsstring" where
  "candidate env u 0 =
     (case manipulateAsync env u [Resize 1280] (jpeg_options (dbl (7 / 10))) of
        Inl e \<Rightarrow> Inl e
      | Inr img \<Rightarrow> Inr (uri img))"
| "candidate env u (Suc k) =
     (case candidate env u k of
        Inl e \<Rightarrow> Inl e
      | Inr v \<Rightarrow>
          (case manipulateAsync env v [] (jpeg_options (loop_quality k)) of
             Inl e \<Rightarrow> Inl e
           | Inr img \<Rightarrow> Inr (uri img)))"

text \<open>
  What holds of the variables of the loop of the first listing, in terms of the
  candidates: the loop holds candidate \<open>k\<close>, the trail holds the measured size of every
  candidate so far, and every candidate before the current one was over the ceiling.
\<close>

definition candidate_inv :: "env \<Rightarrow> jsstring \<Rightarrow> nat \<Rightarrow> reducer \<Rightarrow> bool" where
  "candidate_inv env u k r \<longleftrightarrow>
     reducer_inv env k r \<and>
     candidate env u k = Inr (r_uri r) \<and>
     (\<forall>i\<le>k. \<exists>v. candidate env u i = Inr v \<and> getFileSize env v = Inr (snd (r_trail r ! i))) \<and>
     (\<forall>i<k. MAX_FILE_SIZE < snd (r_trail r ! i))"

text \<open>
  Candidate \<open>i\<close> of the first listing with the size \<open>getFileSize\<close> reports for it, and
  the test \<open>size > MAX_FILE_SIZE\<close> on it.
\<close>

definition measured :: "env \<Rightarrow> jsstring \<Rightarrow> nat \<Rightarrow> js_error + (jsstring \<times> nat)" where
  "measured env u i =
     (case candidate env u i of
        Inl e \<Rightarrow> Inl e
      | Inr v \<Rightarrow>
          (case getFileSize env v of
             Inl e \<Rightarrow> Inl e
           | Inr sz \<Rightarrow> Inr (v, sz)))"


text \<open>
  Variant \<open>i\<close> of the second listing: the \<open>base64\<close> field of the result of encoding
  the original image at the quality of iteration \<open>i + 1\<close> (lines 334 to 338). A variant
  is oversize when it is a text of more than \<open>maxBytes\<close> bytes; it has no base64 when the
  test \<open>result.base64\<close> of line 340 fails.
\<close>

definition variant :: "env \<Rightarrow> jsstring \<Rightarrow> nat \<Rightarrow> js_error + jsstring option" where
  "variant env u i =
     (case manipulateAsync env u []
             \<lparr>compress = loop_quality_v2 i, format = JPEG, want_base64 = True\<rparr> of
        Inl e \<Rightarrow> Inl e
      | Inr result \<Rightarrow> Inr (base64 result))"

definition oversize :: "js_error + jsstring option \<Rightarrow> bool" where
  "oversize x = (case x of Inl e \<Rightarrow> False | Inr None \<Rightarrow> False | Inr (Some m) \<Rightarrow> maxBytes < calcBytes m)"

definition no_base64 :: "js_error + jsstring option \<Rightarrow> bool" where
  "no_base64 x \<longleftrightarrow> x = Inr None \<or> x = Inr (Some [])"

text \<open>
  The value of \<open>manipulatedBase64\<close> when iteration \<open>k + 1\<close> starts: nothing before the
  first iteration, variant \<open>k - 1\<close> afterwards.
\<close>

definition kept :: "env \<Rightarrow> jsstring \<Rightarrow> nat \<Rightarrow> compressor \<Rightarrow> bool" where
  "kept env u k c \<longleftrightarrow>
     (if k = 0 then c_manipulated c = None else variant env u (k - 1) = Inr (c_manipulated c))"

text \<open>
  The loop of the second listing stops with \<open>res\<close> at variant \<open>n\<close>: every variant
  before \<open>n\<close> was oversize, and either the call for variant \<open>n\<close> threw, or the floor was
  reached (\<open>n = 6\<close>), or variant \<open>n\<close> has no base64, or it is within \<open>maxBytes\<close>.
\<close>

definition compress_stops :: "env \<Rightarrow> jsstring \<Rightarrow> nat \<Rightarrow> js_error + compressor \<Rightarrow> bool" where
  "compress_stops env u n res \<longleftrightarrow>
     n \<le> 6 \<and> (\<forall>i<n. oversize (variant env u i)) \<and>
     (case res of
        Inl e \<Rightarrow> n < 6 \<and> variant env u n = Inl e
      | Inr c \<Rightarrow>
          c_quality c = loop_quality_v2 n \<and>
          (if n = 6 then variant env u 5 = Inr (c_manipulated c)
           else if no_base64 (variant env u n) then kept env u n c
           else variant env u n = Inr (c_manipulated c) \<and> \<not> oversize (variant env u n)))"

text \<open>
  The trail of the loop of the second listing records the variants in order.
\<close>

definition records_variants :: "env \<Rightarrow> jsstring \<Rightarrow> (rat \<times> jsstring option) list \<Rightarrow> bool" where
  "records_variants env u tr \<longleftrightarrow>
     (\<forall>i<length tr. variant env u i = Inr (snd (tr ! i)) \<and> fst (tr ! i) = loop_quality_v2 i)"

text \<open>
  An assumption on the image library, not a property of the source: a lower quality
  never gives a longer base64 text for the same image.
\<close>

definition quality_monotone :: "env \<Rightarrow> jsstring \<Rightarrow> bool" where
  "quality_monotone env u \<longleftrightarrow>
     (\<forall>q q' r r' a b.
        q' \<le> q \<longrightarrow>
        manipulateAsync env u [] \<lparr>compress = q, format = JPEG, want_base64 = True\<rparr> = Inr r \<longrightarrow>
        manipulateAsync env u [] \<lparr>compress = q', format = JPEG, want_base64 = True\<rparr> = Inr r' \<longrightarrow>
        base64 r = Some a \<longrightarrow> base64 r' = Some b \<longrightarrow> calcBytes b \<le> calcBytes a)"



text \<open>
  The trail of the loop of the first listing records the measured sizes of the candidates
  in order.
\<close>

definition records_candidates :: "env \<Rightarrow> jsstring \<Rightarrow> (rat \<times> nat) list \<Rightarrow> bool" where
  "records_candidates env u tr \<longleftrightarrow>
     (\<forall>i<length tr. case measured env u i of Inl e \<Rightarrow> False | Inr (v, sz) \<Rightarrow> snd (tr ! i) = sz)"


section \<open>The states of a run\<close>

text \<open>
  Modelled from the spec: the states of the pipeline. The source has no variable for
  them; they are read off the points where a run waits. A run is \<open>Idle\<close> before
  \<open>extractText\<close> is called, \<open>Reducing\<close> from the call until the payload of the OCR
  request is ready, \<open>ExtractingText\<close> while the OCR request is in flight and its answer
  is read, \<open>Explaining\<close> while the request of \<open>analyzeWithAI\<close> is in flight, and at its
  end \<open>Failed\<close> when a \<open>catch\<close> clause ran and \<open>Done\<close> otherwise.
\<close>

datatype pipeline_state = Idle | Reducing | ExtractingText | Explaining | Done | Failed

text \<open>
  The \<open>catch\<close> clause of \<open>analyzeWithAI\<close> runs when \<open>fetch\<close> or \<open>response.json()\<close>
  rejects, or when the body is \<open>null\<close>.
\<close>

definition analysis_fails :: "env \<Rightarrow> jsstring \<Rightarrow> bool" where
  "analysis_fails env text =
     (case fetch env (analyze_request text) of
        Inl e \<Rightarrow> True
      | Inr res \<Rightarrow> (case json_body res of Inl e \<Rightarrow> True | Inr data \<Rightarrow> data = JNull))"

text \<open>
  The state of the pipeline and of the screen each time the run waits, and at its end,
  from the OCR request on (the same steps as \<open>ocr_stage\<close>). While the OCR request is in
  flight the screen is as \<open>extractText\<close> left it. When there is text,
  \<open>analyzeWithAI(text)\<close> runs to its first \<open>await\<close> and the \<open>finally\<close> clause of
  \<open>extractText\<close> runs next: this is the screen while the analysis request is in flight.
\<close>

definition ocr_states :: "env \<Rightarrow> jsstring \<Rightarrow> ui \<Rightarrow> (pipeline_state \<times> ui) list" where
  "ocr_states env b64 s =
     (let s2 = s\<lparr>requests := requests s @ [ocr_request b64]\<rparr> in
      (ExtractingText, s2) #
      (case ocr_text env b64 of
         Inl e \<Rightarrow> [(Failed, (caught_extract e s2)\<lparr>loading := False\<rparr>)]
       | Inr text \<Rightarrow>
           (let s3 = s2\<lparr>extractedText := text\<rparr> in
            if text \<noteq> [] then
              (let s4 = (analyze_begin text s3)\<lparr>loading := False\<rparr> in
               [(Explaining, s4),
                (if analysis_fails env text then Failed else Done, analyze_resume env text s4)])
            else
              [(Done,
                (s3\<lparr>alerts := alerts s3 @
                      [(js ''No text detected'', js ''Try another image with clearer text.'')]\<rparr>)
                  \<lparr>loading := False\<rparr>)])))"

text \<open>The states of a run of \<open>extractText\<close>, first listing.\<close>

definition extractText_states ::
  "env \<Rightarrow> jsstring \<Rightarrow> ui \<Rightarrow> (pipeline_state \<times> ui) list option" where
  "extractText_states env u s =
     (let s1 = start_run s in
      case sizeReducer env u of
        None \<Rightarrow> None
      | Some (Inl e) \<Rightarrow>
          Some [(Idle, s), (Reducing, s1), (Failed, (caught_extract e s1)\<lparr>loading := False\<rparr>)]
      | Some (Inr r) \<Rightarrow>
          (case readAsStringAsync env (r_uri r) of
             Inl e \<Rightarrow>
               Some [(Idle, s), (Reducing, s1),
                     (Failed, (caught_extract e s1)\<lparr>loading := False\<rparr>)]
           | Inr b64 \<Rightarrow> Some ((Idle, s) # (Reducing, s1) # ocr_states env b64 s1)))"

text \<open>The states of a run of \<open>extractText\<close>, second listing.\<close>

definition extractText_v2_states ::
  "env \<Rightarrow> jsstring \<Rightarrow> ui \<Rightarrow> (pipeline_state \<times> ui) list option" where
  "extractText_v2_states env u s =
     (let s1 = start_run s in
      case readAsStringAsync env u of
        Inl e \<Rightarrow>
          Some [(Idle, s), (Reducing, s1), (Failed, (caught_extract e s1)\<lparr>loading := False\<rparr>)]
      | Inr b64 \<Rightarrow>
          (case payload_v2 env u b64 s1 of
             None \<Rightarrow> None
           | Some (p, s2) \<Rightarrow> Some ((Idle, s) # (Reducing, s1) # ocr_states env p s2)))"

text \<open>The busy flag in every state of a run.\<close>

fun busy_by_state :: "(pipeline_state \<times> ui) list \<Rightarrow> (pipeline_state \<times> bool) list" where
  "busy_by_state [] = []"
| "busy_by_state ((st, s) # rest) = (st, loading s) # busy_by_state rest"


section \<open>Sample environments\<close>

text \<open>
  Concrete library behaviours on which the theorems below are instantiated. The size
  that \<open>getInfoAsync\<close> reports depends on how often the file has been encoded, which the
  sample manipulator records in the length of the URI.
\<close>

definition reencode :: "jsstring \<Rightarrow> action list \<Rightarrow> save_options \<Rightarrow> js_error + image_result" where
  "reencode u acts opts =
     Inr \<lparr>uri = 0x78 # u, base64 = (if want_base64 opts then Some (js ''QUJD'') else None)\<rparr>"

definition reject_all :: "jsstring \<Rightarrow> action list \<Rightarrow> save_options \<Rightarrow> js_error + image_result" where
  "reject_all u acts opts = Inl (Rejected (js ''Could not decode image''))"

definition ok_json :: "json \<Rightarrow> js_error + response" where
  "ok_json j = Inr \<lparr>status = 200, json_body = Inr j\<rparr>"

fun sample_fetch ::
  "(js_error + response) \<Rightarrow> (js_error + response) \<Rightarrow> request \<Rightarrow> js_error + response" where
  "sample_fetch ocr ai (Post url (FormData form)) = ocr"
| "sample_fetch ocr ai (Post url (JsonBody j)) = ai"

definition sample_env ::
  "(jsstring \<Rightarrow> action list \<Rightarrow> save_options \<Rightarrow> js_error + image_result) \<Rightarrow> (nat \<Rightarrow> nat) \<Rightarrow>
   jsstring \<Rightarrow> (js_error + response) \<Rightarrow> (js_error + response) \<Rightarrow> env" where
  "sample_env manipulate sizes original ocr ai =
     \<lparr>manipulateAsync = manipulate,
      getInfoAsync = (\<lambda>u. Inr (Some (sizes (length u)))),
      readAsStringAsync = (\<lambda>u. Inr original),
      fetch = sample_fetch ocr ai\<rparr>"

definition hello_reply :: json where
  "hello_reply =
     JObj [(js ''ParsedResults'', JArr [JObj [(js ''ParsedText'', JStr (js '' hello world ''))]])]"

definition greeting_reply :: json where
  "greeting_reply = JObj [(js ''result'', JStr (js ''A greeting.''))]"

definition empty_reply :: json where
  "empty_reply = JObj [(js ''ParsedResults'', JArr [])]"

text \<open>A base64 text of 1,400,000 characters: 1,050,000 bytes by \<open>calcBytes\<close>.\<close>

definition big_original :: jsstring where
  "big_original = replicate 1400000 0x41"

text \<open>An image whose first candidate is under the ceiling.\<close>

definition small_env :: "(js_error + response) \<Rightarrow> (js_error + response) \<Rightarrow> env" where
  "small_env ocr ai = sample_env reencode (\<lambda>n. 500000) (js ''QUJD'') ocr ai"

text \<open>Every encoding takes 900,000 bytes off: 2,100,000, then 1,200,000, then 300,000.\<close>

definition shrinking_env :: env where
  "shrinking_env =
     sample_env reencode (\<lambda>n. 3000000 - 900000 * n) (js ''QUJD'')
       (ok_json hello_reply) (ok_json greeting_reply)"

text \<open>The second candidate is larger than the first: 2,000,000, then 3,000,000, then 1,000,000.\<close>

definition growing_env :: env where
  "growing_env =
     sample_env reencode (\<lambda>n. if n = 1 then 2000000 else if n = 2 then 3000000 else 1000000)
       (js ''QUJD'') (ok_json hello_reply) (ok_json greeting_reply)"

text \<open>A large original that the manipulator cannot encode.\<close>

definition throwing_env :: env where
  "throwing_env =
     sample_env reject_all (\<lambda>n. 0) big_original (ok_json empty_reply) (ok_json greeting_reply)"

text \<open>A large original that the manipulator brings under the limit at once.\<close>

definition big_env :: env where
  "big_env =
     sample_env reencode (\<lambda>n. 0) big_original (ok_json empty_reply) (ok_json greeting_reply)"

text \<open>The OCR service answers with status 500 and an empty JSON object.\<close>

definition server_error_env :: env where
  "server_error_env =
     small_env (Inr \<lparr>status = 500, json_body = Inr (JObj [])\<rparr>) (ok_json greeting_reply)"


text \<open>Every candidate measures 2,000,000 bytes.\<close>

definition stubborn_env :: env where
  "stubborn_env =
     sample_env reencode (\<lambda>n. 2000000) (js ''QUJD'')
       (ok_json hello_reply) (ok_json greeting_reply)"



text \<open>
  A manipulator whose base64 output depends on the quality only, and a large original.
\<close>

definition encode_by ::
  "(rat \<Rightarrow> jsstring option) \<Rightarrow> jsstring \<Rightarrow> action list \<Rightarrow> save_options \<Rightarrow> js_error + image_result" where
  "encode_by out u acts opts =
     Inr \<lparr>uri = 0x78 # u, base64 = (if want_base64 opts then out (compress opts) else None)\<rparr>"

definition quality_env :: "(rat \<Rightarrow> jsstring option) \<Rightarrow> env" where
  "quality_env out =
     sample_env (encode_by out) (\<lambda>n. 0) big_original (ok_json empty_reply) (ok_json greeting_reply)"

text \<open>
  Above quality 0.8 the manipulator gives 1,398,104 characters (1,048,578 bytes), and no
  base64 at all below.
\<close>

definition fading_env :: env where
  "fading_env = quality_env (\<lambda>q. if 4 / 5 < q then Some (replicate 1398104 0x41) else None)"


text \<open>
  The variant at quality 0.75 is longer than the one at quality 0.9: 1,398,104
  characters, then 1,399,000, then 4.
\<close>

definition growing_v2_env :: env where
  "growing_v2_env =
     quality_env (\<lambda>q. Some (replicate (if 4 / 5 < q then 1398104
                                        else if 7 / 10 < q then 1399000 else 4) 0x41))"


text \<open>
  The variants get shorter as the quality goes down: 1,399,000 characters, then
  1,398,104, then 4.
\<close>

definition shrinking_v2_env :: env where
  "shrinking_v2_env =
     quality_env (\<lambda>q. Some (replicate (if 4 / 5 < q then 1399000
                                        else if 7 / 10 < q then 1398104 else 4) 0x41))"


section \<open>Facts about the quality sequences\<close>

lemma dbl_literals:
  "dbl (1 / 10) = 3602879701896397 / 36028797018963968"
  "dbl (6 / 10) = 5404319552844595 / 9007199254740992"
  "dbl (7 / 10) = 3152519739159347 / 4503599627370496"
  "dbl (9 / 10) = 8106479329266893 / 9007199254740992"
  "dbl (15 / 100) = 5404319552844595 / 36028797018963968"
  by code_simp+

lemma dbl_steps:
  "dbl (5404319552844595 / 9007199254740992 - 3602879701896397 / 36028797018963968) = 1 / 2"
  "dbl (1 / 2 - 3602879701896397 / 36028797018963968) = 3602879701896397 / 9007199254740992"
  "dbl (3602879701896397 / 9007199254740992 - 3602879701896397 / 36028797018963968)
     = 1351079888211149 / 4503599627370496"
  "dbl (1351079888211149 / 4503599627370496 - 3602879701896397 / 36028797018963968)
     = 7205759403792795 / 36028797018963968"
  "dbl (7205759403792795 / 36028797018963968 - 3602879701896397 / 36028797018963968)
     = 1801439850948199 / 18014398509481984"
  "dbl (1801439850948199 / 18014398509481984 - 3602879701896397 / 36028797018963968)
     = 1 / 36028797018963968"
  by code_simp+

lemma dbl_steps_v2:
  "dbl (8106479329266893 / 9007199254740992 - 5404319552844595 / 36028797018963968) = 3 / 4"
  "dbl (3 / 4 - 5404319552844595 / 36028797018963968) = 5404319552844595 / 9007199254740992"
  "dbl (5404319552844595 / 9007199254740992 - 5404319552844595 / 36028797018963968)
     = 2026619832316723 / 4503599627370496"
  "dbl (2026619832316723 / 4503599627370496 - 5404319552844595 / 36028797018963968)
     = 2702159776422297 / 9007199254740992"
  "dbl (2702159776422297 / 9007199254740992 - 5404319552844595 / 36028797018963968)
     = 5404319552844593 / 36028797018963968"
  "dbl (5404319552844593 / 36028797018963968 - 5404319552844595 / 36028797018963968)
     = - (1 / 18014398509481984)"
  by code_simp+

lemma loop_quality_0: "loop_quality 0 = 5404319552844595 / 9007199254740992"
  by (simp only: loop_quality.simps dbl_literals)

lemma loop_quality_1: "loop_quality 1 = 1 / 2"
proof -
  have next_index: "Suc 0 = 1" by simp
  show ?thesis
    using loop_quality.simps(2) [of 0]
    unfolding next_index loop_quality_0 dbl_literals dbl_steps .
qed

lemma loop_quality_2: "loop_quality 2 = 3602879701896397 / 9007199254740992"
proof -
  have next_index: "Suc 1 = 2" by simp
  show ?thesis
    using loop_quality.simps(2) [of 1]
    unfolding next_index loop_quality_1 dbl_literals dbl_steps .
qed

lemma loop_quality_3: "loop_quality 3 = 1351079888211149 / 4503599627370496"
proof -
  have next_index: "Suc 2 = 3" by simp
  show ?thesis
    using loop_quality.simps(2) [of 2]
    unfolding next_index loop_quality_2 dbl_literals dbl_steps .
qed

lemma loop_quality_4: "loop_quality 4 = 7205759403792795 / 36028797018963968"
proof -
  have next_index: "Suc 3 = 4" by simp
  show ?thesis
    using loop_quality.simps(2) [of 3]
    unfolding next_index loop_quality_3 dbl_literals dbl_steps .
qed

lemma loop_quality_5: "loop_quality 5 = 1801439850948199 / 18014398509481984"
proof -
  have next_index: "Suc 4 = 5" by simp
  show ?thesis
    using loop_quality.simps(2) [of 4]
    unfolding next_index loop_quality_4 dbl_literals dbl_steps .
qed

lemma loop_quality_6: "loop_quality 6 = 1 / 36028797018963968"
proof -
  have next_index: "Suc 5 = 6" by simp
  show ?thesis
    using loop_quality.simps(2) [of 5]
    unfolding next_index loop_quality_5 dbl_literals dbl_steps .
qed

lemmas loop_quality_values =
  loop_quality_0 loop_quality_1 loop_quality_2 loop_quality_3 loop_quality_4 loop_quality_5 loop_quality_6

lemma loop_quality_v2_0: "loop_quality_v2 0 = 8106479329266893 / 9007199254740992"
  by (simp only: loop_quality_v2.simps dbl_literals)

lemma loop_quality_v2_1: "loop_quality_v2 1 = 3 / 4"
proof -
  have next_index: "Suc 0 = 1" by simp
  show ?thesis
    using loop_quality_v2.simps(2) [of 0]
    unfolding next_index loop_quality_v2_0 dbl_literals dbl_steps_v2 .
qed

lemma loop_quality_v2_2: "loop_quality_v2 2 = 5404319552844595 / 9007199254740992"
proof -
  have next_index: "Suc 1 = 2" by simp
  show ?thesis
    using loop_quality_v2.simps(2) [of 1]
    unfolding next_index loop_quality_v2_1 dbl_literals dbl_steps_v2 .
qed

lemma loop_quality_v2_3: "loop_quality_v2 3 = 2026619832316723 / 4503599627370496"
proof -
  have next_index: "Suc 2 = 3" by simp
  show ?thesis
    using loop_quality_v2.simps(2) [of 2]
    unfolding next_index loop_quality_v2_2 dbl_literals dbl_steps_v2 .
qed

lemma loop_quality_v2_4: "loop_quality_v2 4 = 2702159776422297 / 9007199254740992"
proof -
  have next_index: "Suc 3 = 4" by simp
  show ?thesis
    using loop_quality_v2.simps(2) [of 3]
    unfolding next_index loop_quality_v2_3 dbl_literals dbl_steps_v2 .
qed

lemma loop_quality_v2_5: "loop_quality_v2 5 = 5404319552844593 / 36028797018963968"
proof -
  have next_index: "Suc 4 = 5" by simp
  show ?thesis
    using loop_quality_v2.simps(2) [of 4]
    unfolding next_index loop_quality_v2_4 dbl_literals dbl_steps_v2 .
qed

lemma loop_quality_v2_6: "loop_quality_v2 6 = - (1 / 18014398509481984)"
proof -
  have next_index: "Suc 5 = 6" by simp
  show ?thesis
    using loop_quality_v2.simps(2) [of 5]
    unfolding next_index loop_quality_v2_5 dbl_literals dbl_steps_v2 .
qed

lemmas loop_quality_v2_values =
  loop_quality_v2_0 loop_quality_v2_1 loop_quality_v2_2 loop_quality_v2_3 loop_quality_v2_4 loop_quality_v2_5 loop_quality_v2_6

lemma loop_quality_above: "k < 6 \<Longrightarrow> dbl (1 / 10) < loop_quality k"
proof -
  assume "k < 6"
  then consider "k = 0" | "k = 1" | "k = 2" | "k = 3" | "k = 4" | "k = 5" by linarith
  then show ?thesis
    by cases (simp_all only: loop_quality_values dbl_literals)
qed

lemma loop_quality_floor: "\<not> dbl (1 / 10) < loop_quality 6"
  by (simp only: loop_quality_values dbl_literals)

lemma loop_quality_v2_above: "k < 6 \<Longrightarrow> dbl (1 / 10) \<le> loop_quality_v2 k"
proof -
  assume "k < 6"
  then consider "k = 0" | "k = 1" | "k = 2" | "k = 3" | "k = 4" | "k = 5" by linarith
  then show ?thesis
    by cases (simp_all only: loop_quality_v2_values dbl_literals)
qed

lemma loop_quality_v2_floor: "\<not> dbl (1 / 10) \<le> loop_quality_v2 6"
  by (simp only: loop_quality_v2_values dbl_literals)


section \<open>The loop of the first listing\<close>

lemma reduce_loop_exit:
  assumes "\<not> (MAX_FILE_SIZE < r_size r \<and> dbl (1 / 10) < r_quality r)"
  shows "reduce_loop env r = Some (Inr r)"
  by (subst reduce_loop.simps) (simp only: assms if_False)

lemma reduce_loop_throw:
  "MAX_FILE_SIZE < r_size r \<Longrightarrow> dbl (1 / 10) < r_quality r \<Longrightarrow>
   manipulateAsync env (r_uri r) [] (jpeg_options (r_quality r)) = Inl e \<Longrightarrow>
   reduce_loop env r = Some (Inl e)"
  by (subst reduce_loop.simps) simp

lemma reduce_loop_throw_size:
  "MAX_FILE_SIZE < r_size r \<Longrightarrow> dbl (1 / 10) < r_quality r \<Longrightarrow>
   manipulateAsync env (r_uri r) [] (jpeg_options (r_quality r)) = Inr img \<Longrightarrow>
   getFileSize env (uri img) = Inl e \<Longrightarrow>
   reduce_loop env r = Some (Inl e)"
  by (subst reduce_loop.simps) simp

lemma reduce_loop_step:
  "MAX_FILE_SIZE < r_size r \<Longrightarrow> dbl (1 / 10) < r_quality r \<Longrightarrow>
   manipulateAsync env (r_uri r) [] (jpeg_options (r_quality r)) = Inr img \<Longrightarrow>
   getFileSize env (uri img) = Inr s \<Longrightarrow>
   reduce_loop env r =
     reduce_loop env
       \<lparr>r_uri = uri img, r_size = s, r_quality = dbl (r_quality r - dbl (1 / 10)),
        r_trail = r_trail r @ [(r_quality r, s)]\<rparr>"
  by (subst reduce_loop.simps) simp

lemma reduce_loop_rule:
  assumes k: "k \<le> 6" and q: "r_quality r = loop_quality k" and inv: "I k r"
    and step: "\<And>k r img s. k < 6 \<Longrightarrow> I k r \<Longrightarrow> r_quality r = loop_quality k \<Longrightarrow>
       MAX_FILE_SIZE < r_size r \<Longrightarrow>
       manipulateAsync env (r_uri r) [] (jpeg_options (r_quality r)) = Inr img \<Longrightarrow>
       getFileSize env (uri img) = Inr s \<Longrightarrow>
       I (Suc k) \<lparr>r_uri = uri img, r_size = s, r_quality = dbl (r_quality r - dbl (1 / 10)),
                  r_trail = r_trail r @ [(r_quality r, s)]\<rparr>"
  shows "\<exists>res. reduce_loop env r = Some res \<and>
           (\<forall>r'. res = Inr r' \<longrightarrow>
              (\<exists>k'\<le>6. I k' r' \<and> r_quality r' = loop_quality k' \<and>
                 (r_size r' \<le> MAX_FILE_SIZE \<or> k' = 6)))"
  using k q inv
proof (induction "6 - k" arbitrary: k r)
  case 0
  then have k6: "k = 6" by simp
  with "0.prems" have "\<not> dbl (1 / 10) < r_quality r"
    using loop_quality_floor by simp
  then have "reduce_loop env r = Some (Inr r)"
    by (simp add: reduce_loop_exit)
  with "0.prems" k6 show ?case by auto
next
  case (Suc n)
  then have klt: "k < 6" by simp
  show ?case
  proof (cases "MAX_FILE_SIZE < r_size r")
    case False
    then have "reduce_loop env r = Some (Inr r)"
      by (simp add: reduce_loop_exit)
    with Suc.prems False show ?thesis by auto
  next
    case big: True
    have above: "dbl (1 / 10) < r_quality r"
      using loop_quality_above [OF klt] Suc.prems by simp
    show ?thesis
    proof (cases "manipulateAsync env (r_uri r) [] (jpeg_options (r_quality r))")
      case (Inl e)
      then show ?thesis
        using reduce_loop_throw [OF big above] by simp
    next
      case (Inr img)
      show ?thesis
      proof (cases "getFileSize env (uri img)")
        case (Inl e)
        then show ?thesis
          using reduce_loop_throw_size [OF big above Inr] by simp
      next
        case s: (Inr s)
        let ?r = "\<lparr>r_uri = uri img, r_size = s, r_quality = dbl (r_quality r - dbl (1 / 10)),
                   r_trail = r_trail r @ [(r_quality r, s)]\<rparr>"
        have unfold: "reduce_loop env r = reduce_loop env ?r"
          by (rule reduce_loop_step [OF big above Inr s])
        have n: "n = 6 - Suc k" using Suc.hyps by simp
        have k': "Suc k \<le> 6" using klt by simp
        have q': "r_quality ?r = loop_quality (Suc k)" using Suc.prems by simp
        have inv': "I (Suc k) ?r"
          using step [OF klt _ _ big Inr s] Suc.prems by simp
        from Suc.hyps(1) [OF n k' q' inv'] unfold show ?thesis by simp
      qed
    qed
  qed
qed

lemma sorted_ge_snoc:
  fixes xs :: "nat list"
  assumes "sorted_wrt (\<ge>) xs" and "xs \<noteq> []" and "s \<le> last xs"
  shows "sorted_wrt (\<ge>) (xs @ [s])"
proof -
  have "\<forall>x\<in>set xs. last xs \<le> x"
    using assms(1,2)
  proof (induction xs)
    case Nil
    then show ?case by simp
  next
    case (Cons a xs)
    then show ?case by (cases xs) auto
  qed
  with assms show ?thesis
    by (auto simp: sorted_wrt_append)
qed

lemma reducer_inv_step:
  assumes "reducer_inv env k r" and "r_quality r = loop_quality k"
    and "manipulateAsync env (r_uri r) [] (jpeg_options (r_quality r)) = Inr img"
    and "getFileSize env (uri img) = Inr s"
  shows "reducer_inv env (Suc k)
           \<lparr>r_uri = uri img, r_size = s, r_quality = dbl (r_quality r - dbl (1 / 10)),
            r_trail = r_trail r @ [(r_quality r, s)]\<rparr>"
proof -
  have ne: "r_trail r \<noteq> []" using assms(1) by (auto simp: reducer_inv_def)
  have "sorted_wrt (\<ge>) (map snd (r_trail r) @ [s])" if sh: "encoder_shrinks env"
  proof (rule sorted_ge_snoc)
    show "sorted_wrt (\<ge>) (map snd (r_trail r))"
      using assms(1) sh by (simp add: reducer_inv_def)
    show "map snd (r_trail r) \<noteq> []" using ne by simp
    have "s \<le> r_size r"
      using sh assms by (auto simp: encoder_shrinks_def reducer_inv_def)
    then show "s \<le> last (map snd (r_trail r))"
      using assms(1) ne by (simp add: reducer_inv_def last_map)
  qed
  then show ?thesis
    using assms by (simp add: reducer_inv_def)
qed

lemma sizeReducer_run:
  "\<exists>res. sizeReducer env u = Some res \<and>
     (\<forall>r. res = Inr r \<longrightarrow>
        (\<exists>k\<le>6. reducer_inv env k r \<and> r_quality r = loop_quality k \<and>
           (r_size r \<le> MAX_FILE_SIZE \<or> k = 6)))"
proof (cases "manipulateAsync env u [Resize 1280] (jpeg_options (dbl (7 / 10)))")
  case (Inl e)
  then show ?thesis by (simp add: sizeReducer_def)
next
  case (Inr img)
  show ?thesis
  proof (cases "getFileSize env (uri img)")
    case (Inl e)
    with Inr show ?thesis by (simp add: sizeReducer_def)
  next
    case s: (Inr s)
    let ?r = "\<lparr>r_uri = uri img, r_size = s, r_quality = dbl (6 / 10),
               r_trail = [(dbl (7 / 10), s)]\<rparr>"
    have eq: "sizeReducer env u = reduce_loop env ?r"
      using Inr s by (simp add: sizeReducer_def)
    have "\<exists>res. reduce_loop env ?r = Some res \<and>
           (\<forall>r'. res = Inr r' \<longrightarrow>
              (\<exists>k'\<le>6. reducer_inv env k' r' \<and> r_quality r' = loop_quality k' \<and>
                 (r_size r' \<le> MAX_FILE_SIZE \<or> k' = 6)))"
    proof (rule reduce_loop_rule [where k = 0 and I = "reducer_inv env"])
      show "r_quality ?r = loop_quality 0" by simp
      show "reducer_inv env 0 ?r" using s by (simp add: reducer_inv_def)
      show "(0::nat) \<le> 6" by simp
    next
      fix k r img s
      assume "reducer_inv env k r" and "r_quality r = loop_quality k"
        and "manipulateAsync env (r_uri r) [] (jpeg_options (r_quality r)) = Inr img"
        and "getFileSize env (uri img) = Inr s"
      then show "reducer_inv env (Suc k)
           \<lparr>r_uri = uri img, r_size = s, r_quality = dbl (r_quality r - dbl (1 / 10)),
            r_trail = r_trail r @ [(r_quality r, s)]\<rparr>"
        by (rule reducer_inv_step)
    qed
    with eq show ?thesis by simp
  qed
qed


section \<open>The loop of the second listing\<close>

lemma compress_loop_exit:
  assumes "\<not> dbl (1 / 10) \<le> c_quality c"
  shows "compress_loop env u c = Some (Inr c)"
  by (subst compress_loop.simps) (simp only: assms if_False)

lemma compress_loop_throw:
  "dbl (1 / 10) \<le> c_quality c \<Longrightarrow>
   manipulateAsync env u [] \<lparr>compress = c_quality c, format = JPEG, want_base64 = True\<rparr> = Inl e \<Longrightarrow>
   compress_loop env u c = Some (Inl e)"
  by (subst compress_loop.simps) simp

lemma compress_loop_no_base64:
  "dbl (1 / 10) \<le> c_quality c \<Longrightarrow>
   manipulateAsync env u [] \<lparr>compress = c_quality c, format = JPEG, want_base64 = True\<rparr> = Inr result \<Longrightarrow>
   \<not> truthy (map_option JStr (base64 result)) \<Longrightarrow>
   compress_loop env u c = Some (Inr (c\<lparr>c_trail := c_trail c @ [(c_quality c, base64 result)]\<rparr>))"
  by (subst compress_loop.simps) (simp add: Let_def)

lemma compress_loop_under:
  "dbl (1 / 10) \<le> c_quality c \<Longrightarrow>
   manipulateAsync env u [] \<lparr>compress = c_quality c, format = JPEG, want_base64 = True\<rparr> = Inr result \<Longrightarrow>
   base64 result = Some m \<Longrightarrow> m \<noteq> [] \<Longrightarrow> calcBytes m \<le> maxBytes \<Longrightarrow>
   compress_loop env u c =
     Some (Inr \<lparr>c_quality = c_quality c, c_manipulated = Some m,
                c_trail = c_trail c @ [(c_quality c, Some m)]\<rparr>)"
  by (subst compress_loop.simps) (simp add: Let_def)

lemma compress_loop_step:
  "dbl (1 / 10) \<le> c_quality c \<Longrightarrow>
   manipulateAsync env u [] \<lparr>compress = c_quality c, format = JPEG, want_base64 = True\<rparr> = Inr result \<Longrightarrow>
   base64 result = Some m \<Longrightarrow> m \<noteq> [] \<Longrightarrow> \<not> calcBytes m \<le> maxBytes \<Longrightarrow>
   compress_loop env u c =
     compress_loop env u
       \<lparr>c_quality = dbl (c_quality c - dbl (15 / 100)), c_manipulated = Some m,
        c_trail = c_trail c @ [(c_quality c, Some m)]\<rparr>"
  by (subst compress_loop.simps) (simp add: Let_def)

lemma compress_loop_run:
  assumes "k \<le> 6" and "c_quality c = loop_quality_v2 k" and "length (c_trail c) = k"
    and "map fst (c_trail c) = map loop_quality_v2 [0..<k]"
  shows "\<exists>res. compress_loop env u c = Some res \<and> (\<forall>c'. res = Inr c' \<longrightarrow> compressor_post c')"
  using assms
proof (induction "6 - k" arbitrary: k c)
  case 0
  then have k6: "k = 6" by simp
  with "0.prems" have floor: "\<not> dbl (1 / 10) \<le> c_quality c"
    using loop_quality_v2_floor by simp
  then have "compress_loop env u c = Some (Inr c)"
    by (rule compress_loop_exit)
  moreover have "compressor_post c"
    using "0.prems" k6 floor by (simp add: compressor_post_def)
  ultimately show ?case by simp
next
  case (Suc n)
  then have klt: "k < 6" by simp
  have above: "dbl (1 / 10) \<le> c_quality c"
    using loop_quality_v2_above [OF klt] Suc.prems by simp
  let ?opts = "\<lparr>compress = c_quality c, format = JPEG, want_base64 = True\<rparr>"
  have quals: "map fst (c_trail c @ [(c_quality c, b)]) = map loop_quality_v2 [0..<Suc k]" for b
    using Suc.prems by simp
  show ?case
  proof (cases "manipulateAsync env u [] ?opts")
    case (Inl e)
    then show ?thesis using compress_loop_throw [OF above] by simp
  next
    case (Inr result)
    show ?thesis
    proof (cases "truthy (map_option JStr (base64 result))")
      case False
      let ?c = "c\<lparr>c_trail := c_trail c @ [(c_quality c, base64 result)]\<rparr>"
      have "compress_loop env u c = Some (Inr ?c)"
        by (rule compress_loop_no_base64 [OF above Inr False])
      moreover have "compressor_post ?c"
        using Suc.prems klt False quals by (simp add: compressor_post_def)
      ultimately show ?thesis by simp
    next
      case True
      then obtain m where m: "base64 result = Some m" "m \<noteq> []"
        by (cases "base64 result") auto
      show ?thesis
      proof (cases "calcBytes m \<le> maxBytes")
        case under: True
        let ?c = "\<lparr>c_quality = c_quality c, c_manipulated = Some m,
                   c_trail = c_trail c @ [(c_quality c, Some m)]\<rparr>"
        have "compress_loop env u c = Some (Inr ?c)"
          by (rule compress_loop_under [OF above Inr m under])
        moreover have "compressor_post ?c"
          using Suc.prems klt under quals by (simp add: compressor_post_def)
        ultimately show ?thesis by simp
      next
        case over: False
        let ?c = "\<lparr>c_quality = dbl (c_quality c - dbl (15 / 100)), c_manipulated = Some m,
                   c_trail = c_trail c @ [(c_quality c, Some m)]\<rparr>"
        have unfold: "compress_loop env u c = compress_loop env u ?c"
          by (rule compress_loop_step [OF above Inr m over])
        have n: "n = 6 - Suc k" using Suc.hyps by simp
        have k': "Suc k \<le> 6" using klt by simp
        have q': "c_quality ?c = loop_quality_v2 (Suc k)" using Suc.prems by simp
        have len: "length (c_trail ?c) = Suc k" using Suc.prems by simp
        have quals': "map fst (c_trail ?c) = map loop_quality_v2 [0..<Suc k]"
          using quals by simp
        from Suc.hyps(1) [OF n k' q' len quals'] unfold show ?thesis by simp
      qed
    qed
  qed
qed


section \<open>The pipeline\<close>

lemma request_kinds_differ: "analyze_request t \<noteq> ocr_request b"
  by (simp add: analyze_request_def ocr_request_def)

lemma ocr_stage_failed:
  assumes "ocr_text env b64 = Inl e"
  shows "ocr_stage env b64 s =
           s\<lparr>requests := requests s @ [ocr_request b64], errors := errors s @ [e],
             alerts := alerts s @ [(js ''Error'', js ''Failed to extract text.'')],
             loading := False\<rparr>"
  using assms by (simp add: ocr_stage_def caught_extract_def)

lemma ocr_stage_no_text:
  assumes "ocr_text env b64 = Inr []"
  shows "ocr_stage env b64 s =
           s\<lparr>requests := requests s @ [ocr_request b64], extractedText := [],
             alerts := alerts s @
               [(js ''No text detected'', js ''Try another image with clearer text.'')],
             loading := False\<rparr>"
  using assms by (simp add: ocr_stage_def)

text \<open>
  When there is text, the analysis is resumed in a state whose busy flag the
  \<open>finally\<close> clause of \<open>extractText\<close> has already cleared: the call is not awaited,
  so the flag is false while the analysis request is in flight.
\<close>

lemma ocr_stage_text:
  assumes "ocr_text env b64 = Inr t" and "t \<noteq> []"
  shows "ocr_stage env b64 s =
           analyze_resume env t
             (s\<lparr>extractedText := t,
                requests := requests s @ [ocr_request b64, analyze_request t],
                loading := False\<rparr>)"
  using assms by (simp add: ocr_stage_def analyze_begin_def)

lemma loading_analyze_resume: "\<not> loading (analyze_resume env t s)"
  by (simp add: analyze_resume_def Let_def)

lemma loading_ocr_stage: "\<not> loading (ocr_stage env b64 s)"
  by (cases "ocr_text env b64")
     (simp_all add: ocr_stage_def Let_def loading_analyze_resume)

lemma analyze_resume_falsy:
  assumes "fetch env (analyze_request t) = Inr res" and "json_body res = Inr data"
    and "data \<noteq> JNull" and "\<not> truthy (get_prop (js ''result'') data)"
  shows "analyze_resume env t s = s\<lparr>aiResult := JStr (js ''No result from AI.''), loading := False\<rparr>"
  using assms by (auto simp: analyze_resume_def Let_def split: option.splits)

lemma extractText_reaches_ocr:
  assumes "sizeReducer env u = Some (Inr r)" and "readAsStringAsync env (r_uri r) = Inr b64"
  shows "extractText env u s = Some (ocr_stage env b64 (start_run s))"
  using assms by (simp add: extractText_def)

lemma extractText_reduction_failed:
  assumes "sizeReducer env u = Some (Inl e)"
  shows "extractText env u s =
           Some ((start_run s)\<lparr>errors := errors s @ [e],
                   alerts := alerts s @ [(js ''Error'', js ''Failed to extract text.'')],
                   loading := False\<rparr>)"
  using assms by (simp add: extractText_def caught_extract_def start_run_def)

lemma extractText_v2_reaches_ocr:
  assumes "readAsStringAsync env u = Inr b64"
    and "payload_v2 env u b64 (start_run s) = Some (p, s2)"
  shows "extractText_v2 env u s = Some (ocr_stage env p s2)"
  using assms by (simp add: extractText_v2_def)

text \<open>The compression step of the second listing always ends, and only adds warnings.\<close>

lemma payload_v2_total:
  "\<exists>p s'. payload_v2 env u b64 s = Some (p, s') \<and> s'\<lparr>warnings := warnings s\<rparr> = s"
proof (cases "maxBytes < calcBytes b64")
  case False
  then show ?thesis by (simp add: payload_v2_def)
next
  case True
  let ?c0 = "\<lparr>c_quality = dbl (9 / 10), c_manipulated = None, c_trail = []\<rparr>"
  have "\<exists>res. compress_loop env u ?c0 = Some res \<and> (\<forall>c'. res = Inr c' \<longrightarrow> compressor_post c')"
    by (rule compress_loop_run [where k = 0]) simp_all
  then obtain res where res: "compress_loop env u ?c0 = Some res" by blast
  show ?thesis
  proof (cases res)
    case (Inl e)
    with res True show ?thesis by (simp add: payload_v2_def)
  next
    case (Inr c)
    with res True show ?thesis
      by (cases "truthy (map_option JStr (c_manipulated c))") (simp_all add: payload_v2_def)
  qed
qed

lemma extractText_total: "\<exists>s'. extractText env u s = Some s' \<and> \<not> loading s'"
proof -
  obtain res where res: "sizeReducer env u = Some res"
    using sizeReducer_run [of env u] by blast
  show ?thesis
  proof (cases res)
    case (Inl e)
    with res show ?thesis by (simp add: extractText_reduction_failed)
  next
    case (Inr r)
    with res show ?thesis
      by (cases "readAsStringAsync env (r_uri r)")
         (simp_all add: extractText_def loading_ocr_stage)
  qed
qed

lemma extractText_v2_total: "\<exists>s'. extractText_v2 env u s = Some s' \<and> \<not> loading s'"
proof (cases "readAsStringAsync env u")
  case (Inl e)
  then show ?thesis by (simp add: extractText_v2_def)
next
  case (Inr b64)
  obtain p s2 where "payload_v2 env u b64 (start_run s) = Some (p, s2)"
    using payload_v2_total [of env u b64 "start_run s"] by blast
  with Inr show ?thesis
    by (simp add: extractText_v2_reaches_ocr loading_ocr_stage)
qed


lemma trim_decomposition:
  "\<exists>a b. t = a @ trim t @ b \<and> list_all is_white_space a \<and> list_all is_white_space b"
proof -
  let ?d = "dropWhile is_white_space t"
  have "t = takeWhile is_white_space t @ ?d" by simp
  moreover have "?d = trim t @ rev (takeWhile is_white_space (rev ?d))"
    by (metis rev_append rev_rev_ident takeWhile_dropWhile_id trim_def)
  ultimately have "t = takeWhile is_white_space t @ trim t @ rev (takeWhile is_white_space (rev ?d))"
    by simp
  moreover have "list_all is_white_space (takeWhile is_white_space t)"
    by (simp add: list_all_iff) (meson set_takeWhileD)
  moreover have "list_all is_white_space (rev (takeWhile is_white_space (rev ?d)))"
    by (simp add: list_all_iff) (meson set_takeWhileD)
  ultimately show ?thesis by blast
qed

lemma trim_ends:
  assumes "trim t \<noteq> []"
  shows "\<not> is_white_space (hd (trim t)) \<and> \<not> is_white_space (last (trim t))"
proof -
  let ?d = "dropWhile is_white_space t"
  let ?e = "dropWhile is_white_space (rev ?d)"
  have e: "?e \<noteq> []" using assms by (simp add: trim_def)
  then have d: "?d \<noteq> []" by (cases "dropWhile is_white_space t") simp_all
  have last_e: "last ?e = last (rev ?d)"
    using e by (metis last_appendR takeWhile_dropWhile_id)
  have "last (trim t) = hd ?e"
    using e by (simp add: trim_def last_rev)
  moreover have "\<not> is_white_space (hd ?e)"
    using e by (rule hd_dropWhile)
  moreover have "hd (trim t) = last ?e"
    using e by (simp add: trim_def hd_rev)
  moreover have "last (rev ?d) = hd ?d"
    using d by (simp add: last_rev)
  moreover have "\<not> is_white_space (hd ?d)"
    using d by (rule hd_dropWhile)
  ultimately show ?thesis using last_e by simp
qed

lemma analyzeWithAI_falsy:
  assumes "fetch env (analyze_request t) = Inr res" and "json_body res = Inr data"
    and "data \<noteq> JNull" and "\<not> truthy (get_prop (js ''result'') data)"
  shows "analyzeWithAI env t s =
           s\<lparr>aiResult := JStr (js ''No result from AI.''),
             requests := requests s @ [analyze_request t], loading := False\<rparr>"
  using assms by (simp add: analyzeWithAI_def analyze_resume_falsy analyze_begin_def)

lemma analyze_resume_keeps:
  "requests (analyze_resume env t s) = requests s"
  "warnings (analyze_resume env t s) = warnings s"
  "extractedText (analyze_resume env t s) = extractedText s"
  by (simp_all add: analyze_resume_def Let_def split: sum.splits option.splits)

lemma analyze_resume_alerts:
  "alerts (analyze_resume env t s) = alerts s \<or>
   alerts (analyze_resume env t s) =
     alerts s @ [(js ''Error'', js ''Could not connect to AI service.'')]"
  by (simp add: analyze_resume_def Let_def split: sum.splits option.splits)

lemma alert_texts_differ:
  "(js ''Error'', js ''Failed to extract text.'') \<noteq>
   (js ''Error'', js ''Could not connect to AI service.'')"
  by (simp add: js_def)

lemma alert_texts_differ2:
  "(js ''Error'', js ''Failed to extract text.'') \<noteq>
   (js ''No text detected'', js ''Try another image with clearer text.'')"
  by (simp add: js_def)

text \<open>What the tail of \<open>extractText\<close> does once the OCR text is there.\<close>

lemma ocr_stage_parsed:
  assumes "ocr_text env b = Inr t"
  shows "extractedText (ocr_stage env b s) = t"
    and "requests (ocr_stage env b s) =
           requests s @ ocr_request b # (if t = [] then [] else [analyze_request t])"
    and "\<exists>new. alerts (ocr_stage env b s) = alerts s @ new \<and>
           (js ''Error'', js ''Failed to extract text.'') \<notin> set new"
    and "warnings (ocr_stage env b s) = warnings s"
proof -
  show "extractedText (ocr_stage env b s) = t"
    using assms by (simp add: ocr_stage_def Let_def analyze_resume_keeps analyze_begin_def)
  show "requests (ocr_stage env b s) =
           requests s @ ocr_request b # (if t = [] then [] else [analyze_request t])"
    using assms by (simp add: ocr_stage_def Let_def analyze_resume_keeps analyze_begin_def)
  show "warnings (ocr_stage env b s) = warnings s"
    using assms by (simp add: ocr_stage_def Let_def analyze_resume_keeps analyze_begin_def)
  show "\<exists>new. alerts (ocr_stage env b s) = alerts s @ new \<and>
           (js ''Error'', js ''Failed to extract text.'') \<notin> set new"
  proof (cases "t = []")
    case True
    with assms have "alerts (ocr_stage env b s) =
        alerts s @ [(js ''No text detected'', js ''Try another image with clearer text.'')]"
      by (simp add: ocr_stage_no_text)
    then show ?thesis using alert_texts_differ2 by simp
  next
    case False
    let ?s = "s\<lparr>extractedText := t,
                requests := requests s @ [ocr_request b, analyze_request t],
                loading := False\<rparr>"
    have eq: "ocr_stage env b s = analyze_resume env t ?s"
      using assms False by (rule ocr_stage_text)
    from analyze_resume_alerts [of env t ?s] show ?thesis
    proof
      assume "alerts (analyze_resume env t ?s) = alerts ?s"
      then have "alerts (ocr_stage env b s) = alerts s @ []" using eq by simp
      then show ?thesis by (metis empty_iff list.set(1))
    next
      assume "alerts (analyze_resume env t ?s) =
        alerts ?s @ [(js ''Error'', js ''Could not connect to AI service.'')]"
      then have "alerts (ocr_stage env b s) =
          alerts s @ [(js ''Error'', js ''Could not connect to AI service.'')]"
        using eq by simp
      then show ?thesis using alert_texts_differ by simp
    qed
  qed
qed

lemma ocr_stage_requests:
  "\<exists>rest. requests (ocr_stage env b s) = requests s @ ocr_request b # rest"
proof (cases "ocr_text env b")
  case (Inl e)
  then show ?thesis by (simp add: ocr_stage_failed)
next
  case (Inr t)
  then show ?thesis by (simp add: ocr_stage_parsed(2))
qed

lemma ocr_stage_warnings: "warnings (ocr_stage env b s) = warnings s"
proof (cases "ocr_text env b")
  case (Inl e)
  then show ?thesis by (simp add: ocr_stage_failed)
next
  case (Inr t)
  then show ?thesis by (simp add: ocr_stage_parsed(4))
qed

lemma ocr_text_failures:
  "fetch env (ocr_request b) = Inl e \<or>
   (\<exists>res. fetch env (ocr_request b) = Inr res \<and> json_body res = Inl e) \<Longrightarrow>
   ocr_text env b = Inl e"
  by (auto simp: ocr_text_def)

lemma ocr_text_parsed:
  "fetch env (ocr_request b) = Inr \<lparr>status = n, json_body = Inr data\<rparr> \<Longrightarrow>
   ocr_text env b = parsedText data"
  by (simp add: ocr_text_def)

lemma payload_v2_threw:
  assumes "maxBytes < calcBytes b64"
    and "compress_loop env u \<lparr>c_quality = dbl (9 / 10), c_manipulated = None, c_trail = []\<rparr>
           = Some (Inl e)"
  shows "payload_v2 env u b64 s =
     Some (b64, s\<lparr>warnings := warnings s @
             [js ''Image compression step failed, continuing with original image:'']\<rparr>)"
  using assms by (simp add: payload_v2_def)

lemma sizeReducer_first_rejected:
  "manipulateAsync env u [Resize 1280] (jpeg_options (dbl (7 / 10))) = Inl e \<Longrightarrow>
   sizeReducer env u = Some (Inl e)"
  by (simp add: sizeReducer_def)

lemma ocr_stage_outcomes:
  shows "ocr_text env b = Inl e \<Longrightarrow>
           requests (ocr_stage env b s) = requests s @ [ocr_request b] \<and>
           errors (ocr_stage env b s) = errors s @ [e] \<and>
           alerts (ocr_stage env b s) =
             alerts s @ [(js ''Error'', js ''Failed to extract text.'')] \<and>
           extractedText (ocr_stage env b s) = extractedText s \<and>
           \<not> loading (ocr_stage env b s)"
    and "ocr_text env b = Inr t \<Longrightarrow>
           extractedText (ocr_stage env b s) = t \<and>
           requests (ocr_stage env b s) =
             requests s @ ocr_request b # (if t = [] then [] else [analyze_request t]) \<and>
           (\<exists>new. alerts (ocr_stage env b s) = alerts s @ new \<and>
              (js ''Error'', js ''Failed to extract text.'') \<notin> set new) \<and>
           \<not> loading (ocr_stage env b s)"
proof -
  show "ocr_text env b = Inl e \<Longrightarrow>
           requests (ocr_stage env b s) = requests s @ [ocr_request b] \<and>
           errors (ocr_stage env b s) = errors s @ [e] \<and>
           alerts (ocr_stage env b s) =
             alerts s @ [(js ''Error'', js ''Failed to extract text.'')] \<and>
           extractedText (ocr_stage env b s) = extractedText s \<and>
           \<not> loading (ocr_stage env b s)"
    by (simp add: ocr_stage_failed)
  show "ocr_text env b = Inr t \<Longrightarrow>
           extractedText (ocr_stage env b s) = t \<and>
           requests (ocr_stage env b s) =
             requests s @ ocr_request b # (if t = [] then [] else [analyze_request t]) \<and>
           (\<exists>new. alerts (ocr_stage env b s) = alerts s @ new \<and>
              (js ''Error'', js ''Failed to extract text.'') \<notin> set new) \<and>
           \<not> loading (ocr_stage env b s)"
    using ocr_stage_parsed [of env b t s] loading_ocr_stage [of env b s] by blast
qed


section \<open>Bounds on the two loops\<close>

lemma loop_quality_decreases: "k < 6 \<Longrightarrow> loop_quality (Suc k) < loop_quality k"
proof -
  assume "k < 6"
  then consider "k = 0" | "k = 1" | "k = 2" | "k = 3" | "k = 4" | "k = 5" by linarith
  then show ?thesis
  proof cases
    case 1
    have "loop_quality 1 < loop_quality 0" by (simp only: loop_quality_values)
    with 1 show ?thesis by simp
  next
    case 2
    have "loop_quality 2 < loop_quality 1" by (simp only: loop_quality_values)
    moreover have "Suc 1 = 2" by simp
    ultimately show ?thesis using 2 by (simp only:)
  next
    case 3
    have "loop_quality 3 < loop_quality 2" by (simp only: loop_quality_values)
    moreover have "Suc 2 = 3" by simp
    ultimately show ?thesis using 3 by (simp only:)
  next
    case 4
    have "loop_quality 4 < loop_quality 3" by (simp only: loop_quality_values)
    moreover have "Suc 3 = 4" by simp
    ultimately show ?thesis using 4 by (simp only:)
  next
    case 5
    have "loop_quality 5 < loop_quality 4" by (simp only: loop_quality_values)
    moreover have "Suc 4 = 5" by simp
    ultimately show ?thesis using 5 by (simp only:)
  next
    case 6
    have "loop_quality 6 < loop_quality 5" by (simp only: loop_quality_values)
    moreover have "Suc 5 = 6" by simp
    ultimately show ?thesis using 6 by (simp only:)
  qed
qed

lemma loop_quality_v2_decreases: "k < 6 \<Longrightarrow> loop_quality_v2 (Suc k) < loop_quality_v2 k"
proof -
  assume "k < 6"
  then consider "k = 0" | "k = 1" | "k = 2" | "k = 3" | "k = 4" | "k = 5" by linarith
  then show ?thesis
  proof cases
    case 1
    have "loop_quality_v2 1 < loop_quality_v2 0" by (simp only: loop_quality_v2_values)
    with 1 show ?thesis by simp
  next
    case 2
    have "loop_quality_v2 2 < loop_quality_v2 1" by (simp only: loop_quality_v2_values)
    moreover have "Suc 1 = 2" by simp
    ultimately show ?thesis using 2 by (simp only:)
  next
    case 3
    have "loop_quality_v2 3 < loop_quality_v2 2" by (simp only: loop_quality_v2_values)
    moreover have "Suc 2 = 3" by simp
    ultimately show ?thesis using 3 by (simp only:)
  next
    case 4
    have "loop_quality_v2 4 < loop_quality_v2 3" by (simp only: loop_quality_v2_values)
    moreover have "Suc 3 = 4" by simp
    ultimately show ?thesis using 4 by (simp only:)
  next
    case 5
    have "loop_quality_v2 5 < loop_quality_v2 4" by (simp only: loop_quality_v2_values)
    moreover have "Suc 4 = 5" by simp
    ultimately show ?thesis using 5 by (simp only:)
  next
    case 6
    have "loop_quality_v2 6 < loop_quality_v2 5" by (simp only: loop_quality_v2_values)
    moreover have "Suc 5 = 6" by simp
    ultimately show ?thesis using 6 by (simp only:)
  qed
qed

lemma reducer_inv_iterations:
  assumes "reducer_inv env k r"
  shows "iterations r = k"
proof -
  have "length (map fst (r_trail r)) = Suc k"
    using assms by (simp add: reducer_inv_def)
  then show ?thesis by (simp add: iterations_def)
qed

lemma bound_first: "\<lfloor>(6 / 10 - 1 / 10) / (1 / 10 :: rat)\<rfloor> + 1 = 6"
  by simp

lemma bound_second: "\<lfloor>(9 / 10 - 1 / 10) / (15 / 100 :: rat)\<rfloor> + 1 = 6"
proof -
  have "(9 / 10 - 1 / 10) / (15 / 100 :: rat) = 16 / 3" by simp
  moreover have "\<lfloor>16 / 3 :: rat\<rfloor> = 5" by (rule floor_unique) simp_all
  ultimately show ?thesis by simp
qed

lemma reducer_inv_facts:
  assumes "k \<le> 6" and "reducer_inv env k r"
  shows "int (iterations r) \<le> 6"
    and "map fst (r_trail r) = dbl (7 / 10) # map loop_quality [0..<iterations r]"
    and "encoder_shrinks env \<longrightarrow> sorted_wrt (\<ge>) (map snd (r_trail r))"
    and "snd (last (r_trail r)) = r_size r"
  using assms reducer_inv_iterations [OF assms(2)] by (simp_all add: reducer_inv_def)

lemma sizeReducer_bounded:
  "\<exists>res. sizeReducer env u = Some res \<and>
      (\<forall>r. res = Inr r \<longrightarrow>
         int (iterations r) \<le> 6 \<and>
         map fst (r_trail r) = dbl (7 / 10) # map loop_quality [0..<iterations r] \<and>
         (encoder_shrinks env \<longrightarrow> sorted_wrt (\<ge>) (map snd (r_trail r))))"
proof -
  obtain res where res: "sizeReducer env u = Some res"
    and post: "\<forall>r. res = Inr r \<longrightarrow>
        (\<exists>k\<le>6. reducer_inv env k r \<and> r_quality r = loop_quality k \<and>
           (r_size r \<le> MAX_FILE_SIZE \<or> k = 6))"
    using sizeReducer_run [of env u] by blast
  have "int (iterations r) \<le> 6 \<and>
         map fst (r_trail r) = dbl (7 / 10) # map loop_quality [0..<iterations r] \<and>
         (encoder_shrinks env \<longrightarrow> sorted_wrt (\<ge>) (map snd (r_trail r)))"
    if "res = Inr r" for r
  proof -
    have "\<exists>k\<le>6. reducer_inv env k r \<and> r_quality r = loop_quality k \<and>
           (r_size r \<le> MAX_FILE_SIZE \<or> k = 6)"
      using post that by simp
    then obtain k where k: "k \<le> 6" "reducer_inv env k r" by auto
    show ?thesis
      by (intro conjI) (rule reducer_inv_facts [OF k])+
  qed
  with res show ?thesis by blast
qed

lemma compress_loop_bounded:
  "\<exists>res. compress_loop env u
             \<lparr>c_quality = dbl (9 / 10), c_manipulated = None, c_trail = []\<rparr> = Some res \<and>
      (\<forall>c. res = Inr c \<longrightarrow>
         int (length (c_trail c)) \<le> 6 \<and>
         map fst (c_trail c) = map loop_quality_v2 [0..<length (c_trail c)])"
proof -
  let ?c0 = "\<lparr>c_quality = dbl (9 / 10), c_manipulated = None, c_trail = []\<rparr>"
  have "\<exists>res. compress_loop env u ?c0 = Some res \<and> (\<forall>c'. res = Inr c' \<longrightarrow> compressor_post c')"
    by (rule compress_loop_run [where k = 0]) simp_all
  then obtain res where res: "compress_loop env u ?c0 = Some res"
    and post: "\<forall>c'. res = Inr c' \<longrightarrow> compressor_post c'" by blast
  have "int (length (c_trail c)) \<le> 6 \<and>
         map fst (c_trail c) = map loop_quality_v2 [0..<length (c_trail c)]"
    if "res = Inr c" for c
    using post that by (simp add: compressor_post_def)
  with res show ?thesis by blast
qed

lemma sorted_ge_last:
  fixes xs :: "nat list"
  assumes "sorted_wrt (\<ge>) xs" and "x \<in> set xs"
  shows "last xs \<le> x"
  using assms
proof (induction xs)
  case Nil
  then show ?case by simp
next
  case (Cons a xs)
  then show ?case by (cases xs) auto
qed

lemma sizeReducer_ceiling:
  "\<exists>res. sizeReducer env u = Some res \<and>
      (\<forall>r. res = Inr r \<longrightarrow>
         snd (last (r_trail r)) = r_size r \<and>
         (r_size r \<le> MAX_FILE_SIZE \<or> (iterations r = 6 \<and> r_quality r \<le> dbl (1 / 10))) \<and>
         (encoder_shrinks env \<longrightarrow> (\<forall>c \<in> set (r_trail r). r_size r \<le> snd c)))"
proof -
  obtain res where res: "sizeReducer env u = Some res"
    and post: "\<forall>r. res = Inr r \<longrightarrow>
        (\<exists>k\<le>6. reducer_inv env k r \<and> r_quality r = loop_quality k \<and>
           (r_size r \<le> MAX_FILE_SIZE \<or> k = 6))"
    using sizeReducer_run [of env u] by blast
  have "snd (last (r_trail r)) = r_size r \<and>
         (r_size r \<le> MAX_FILE_SIZE \<or> (iterations r = 6 \<and> r_quality r \<le> dbl (1 / 10))) \<and>
         (encoder_shrinks env \<longrightarrow> (\<forall>c \<in> set (r_trail r). r_size r \<le> snd c))"
    if "res = Inr r" for r
  proof -
    have "\<exists>k\<le>6. reducer_inv env k r \<and> r_quality r = loop_quality k \<and>
           (r_size r \<le> MAX_FILE_SIZE \<or> k = 6)"
      using post that by simp
    then obtain k where k: "k \<le> 6" "reducer_inv env k r"
      and q: "r_quality r = loop_quality k" and exit: "r_size r \<le> MAX_FILE_SIZE \<or> k = 6"
      by auto
    have it: "iterations r = k" using k(2) by (rule reducer_inv_iterations)
    have last: "snd (last (r_trail r)) = r_size r" by (rule reducer_inv_facts(4) [OF k])
    have ne: "r_trail r \<noteq> []" using k(2) by (auto simp: reducer_inv_def)
    have floor: "r_quality r \<le> dbl (1 / 10)" if "k = 6"
      using loop_quality_floor q that by simp
    have smallest: "r_size r \<le> snd c" if sh: "encoder_shrinks env" and c: "c \<in> set (r_trail r)" for c
    proof -
      have "sorted_wrt (\<ge>) (map snd (r_trail r))"
        using reducer_inv_facts(3) [OF k] sh by simp
      moreover have "snd c \<in> set (map snd (r_trail r))" using c by simp
      ultimately have "last (map snd (r_trail r)) \<le> snd c" by (rule sorted_ge_last)
      then show ?thesis using last ne by (simp add: last_map)
    qed
    show ?thesis
      using last exit it floor smallest by blast
  qed
  with res show ?thesis by blast
qed

lemma payload_v2_ceiling:
  "\<exists>p s'. payload_v2 env u b64 s = Some (p, s') \<and>
      (calcBytes p \<le> maxBytes \<or>
       (p = b64 \<and> length (warnings s') = Suc (length (warnings s))) \<or>
       (\<exists>c. compress_loop env u
               \<lparr>c_quality = dbl (9 / 10), c_manipulated = None, c_trail = []\<rparr> = Some (Inr c) \<and>
            c_manipulated c = Some p \<and>
            ((length (c_trail c) = 6 \<and> c_quality c < dbl (1 / 10)) \<or>
             (c_trail c \<noteq> [] \<and> \<not> truthy (map_option JStr (snd (last (c_trail c))))))))"
proof (cases "maxBytes < calcBytes b64")
  case False
  then show ?thesis by (simp add: payload_v2_def)
next
  case True
  let ?c0 = "\<lparr>c_quality = dbl (9 / 10), c_manipulated = None, c_trail = []\<rparr>"
  have "\<exists>res. compress_loop env u ?c0 = Some res \<and> (\<forall>c'. res = Inr c' \<longrightarrow> compressor_post c')"
    by (rule compress_loop_run [where k = 0]) simp_all
  then obtain res where res: "compress_loop env u ?c0 = Some res"
    and post: "\<forall>c'. res = Inr c' \<longrightarrow> compressor_post c'" by blast
  show ?thesis
  proof (cases res)
    case (Inl e)
    with res True show ?thesis by (simp add: payload_v2_def)
  next
    case (Inr c)
    show ?thesis
    proof (cases "truthy (map_option JStr (c_manipulated c))")
      case False
      with res Inr True show ?thesis by (simp add: payload_v2_def)
    next
      case t: True
      then obtain m where m: "c_manipulated c = Some m" by (cases "c_manipulated c") auto
      have pay: "payload_v2 env u b64 s = Some (m, s)"
        using res Inr True t m by (simp add: payload_v2_def)
      have "compressor_post c" using post Inr by simp
      then have "calcBytes m \<le> maxBytes \<or>
          (length (c_trail c) = 6 \<and> c_quality c < dbl (1 / 10)) \<or>
          (c_trail c \<noteq> [] \<and> \<not> truthy (map_option JStr (snd (last (c_trail c)))))"
        using m by (simp add: compressor_post_def)
      then show ?thesis
        using pay res Inr m by auto
    qed
  qed
qed


section \<open>The candidates of the first listing\<close>

lemma reducer_inv_length:
  assumes "reducer_inv env k r"
  shows "length (r_trail r) = Suc k"
proof -
  have "length (map fst (r_trail r)) = Suc k"
    using assms by (simp add: reducer_inv_def)
  then show ?thesis by simp
qed

lemma candidate_inv_step:
  assumes inv: "candidate_inv env u k r" and q: "r_quality r = loop_quality k"
    and big: "MAX_FILE_SIZE < r_size r"
    and enc: "manipulateAsync env (r_uri r) [] (jpeg_options (r_quality r)) = Inr img"
    and sz: "getFileSize env (uri img) = Inr s"
  shows "candidate_inv env u (Suc k)
           \<lparr>r_uri = uri img, r_size = s, r_quality = dbl (r_quality r - dbl (1 / 10)),
            r_trail = r_trail r @ [(r_quality r, s)]\<rparr>"
proof -
  let ?r = "\<lparr>r_uri = uri img, r_size = s, r_quality = dbl (r_quality r - dbl (1 / 10)),
            r_trail = r_trail r @ [(r_quality r, s)]\<rparr>"
  have rinv: "reducer_inv env k r" using inv by (simp add: candidate_inv_def)
  have len: "length (r_trail r) = Suc k" using rinv by (rule reducer_inv_length)
  have cand: "candidate env u k = Inr (r_uri r)" using inv by (simp add: candidate_inv_def)
  have "reducer_inv env (Suc k) ?r"
    using rinv q enc sz by (rule reducer_inv_step)
  moreover have next_cand: "candidate env u (Suc k) = Inr (uri img)"
    using cand enc q by simp
  moreover have "\<exists>v. candidate env u i = Inr v \<and> getFileSize env v = Inr (snd (r_trail ?r ! i))"
    if "i \<le> Suc k" for i
  proof (cases "i \<le> k")
    case True
    then have "r_trail ?r ! i = r_trail r ! i" using len by (simp add: nth_append)
    then show ?thesis using inv True by (simp add: candidate_inv_def)
  next
    case False
    then have i: "i = Suc k" using that by simp
    then have "r_trail ?r ! i = (r_quality r, s)" using len by (simp add: nth_append)
    then show ?thesis using next_cand sz i by simp
  qed
  moreover have "MAX_FILE_SIZE < snd (r_trail ?r ! i)" if "i < Suc k" for i
  proof (cases "i < k")
    case True
    then have "r_trail ?r ! i = r_trail r ! i" using len by (simp add: nth_append)
    then show ?thesis using inv True by (simp add: candidate_inv_def)
  next
    case False
    then have i: "i = k" using that by simp
    have ne: "r_trail r \<noteq> []" using len by auto
    have "r_trail ?r ! i = r_trail r ! k" using len i by (simp add: nth_append)
    also have "\<dots> = last (r_trail r)" using len ne by (simp add: last_conv_nth)
    finally show ?thesis using rinv big by (simp add: reducer_inv_def)
  qed
  ultimately show ?thesis by (simp add: candidate_inv_def)
qed

lemma sizeReducer_candidates:
  "\<exists>res. sizeReducer env u = Some res \<and>
     (\<forall>r. res = Inr r \<longrightarrow>
        (\<exists>k\<le>6. candidate_inv env u k r \<and> r_quality r = loop_quality k \<and>
           (r_size r \<le> MAX_FILE_SIZE \<or> k = 6)))"
proof (cases "manipulateAsync env u [Resize 1280] (jpeg_options (dbl (7 / 10)))")
  case (Inl e)
  then show ?thesis by (simp add: sizeReducer_def)
next
  case (Inr img)
  show ?thesis
  proof (cases "getFileSize env (uri img)")
    case (Inl e)
    with Inr show ?thesis by (simp add: sizeReducer_def)
  next
    case s: (Inr s)
    let ?r = "\<lparr>r_uri = uri img, r_size = s, r_quality = dbl (6 / 10),
               r_trail = [(dbl (7 / 10), s)]\<rparr>"
    have eq: "sizeReducer env u = reduce_loop env ?r"
      using Inr s by (simp add: sizeReducer_def)
    have "\<exists>res. reduce_loop env ?r = Some res \<and>
           (\<forall>r'. res = Inr r' \<longrightarrow>
              (\<exists>k'\<le>6. candidate_inv env u k' r' \<and> r_quality r' = loop_quality k' \<and>
                 (r_size r' \<le> MAX_FILE_SIZE \<or> k' = 6)))"
    proof (rule reduce_loop_rule [where k = 0 and I = "candidate_inv env u"])
      show "r_quality ?r = loop_quality 0" by simp
      show "candidate_inv env u 0 ?r"
        using Inr s by (simp add: candidate_inv_def reducer_inv_def)
      show "(0::nat) \<le> 6" by simp
    next
      fix k r img s
      assume "candidate_inv env u k r" and "r_quality r = loop_quality k"
        and "MAX_FILE_SIZE < r_size r"
        and "manipulateAsync env (r_uri r) [] (jpeg_options (r_quality r)) = Inr img"
        and "getFileSize env (uri img) = Inr s"
      then show "candidate_inv env u (Suc k)
           \<lparr>r_uri = uri img, r_size = s, r_quality = dbl (r_quality r - dbl (1 / 10)),
            r_trail = r_trail r @ [(r_quality r, s)]\<rparr>"
        by (rule candidate_inv_step)
    qed
    with eq show ?thesis by simp
  qed
qed











section \<open>The variants of the second listing\<close>



text \<open>The variant at which the loop stops is determined by the variants.\<close>

lemma compress_stops_unique:
  assumes "compress_stops env u n res" and "\<forall>i<m. oversize (variant env u i)"
    and "m = 6 \<or> \<not> oversize (variant env u m)" and "m \<le> 6"
  shows "n = m"
proof (rule ccontr)
  assume ne: "n \<noteq> m"
  have n6: "n \<le> 6" and nbefore: "\<forall>i<n. oversize (variant env u i)"
    using assms(1) by (simp_all add: compress_stops_def)
  have stop_n: "n = 6 \<or> \<not> oversize (variant env u n)"
    using assms(1)
    by (cases res)
      (auto simp: compress_stops_def oversize_def no_base64_def calcBytes_def maxBytes_def
         split: if_splits)
  show False
  proof (cases "n < m")
    case True
    then have "oversize (variant env u n)" using assms(2) by simp
    moreover have "n \<noteq> 6" using True assms(4) by simp
    ultimately show False using stop_n by simp
  next
    case False
    then have "m < n" using ne by simp
    then have "oversize (variant env u m)" "m \<noteq> 6" using nbefore n6 by simp_all
    then show False using assms(3) by simp
  qed
qed

lemma compress_loop_trail:
  assumes "k \<le> 6" and "c_quality c = loop_quality_v2 k" and "length (c_trail c) = k"
    and "records_variants env u (c_trail c)"
  shows "\<exists>res. compress_loop env u c = Some res \<and>
           (\<forall>c'. res = Inr c' \<longrightarrow> length (c_trail c') \<le> 6 \<and> records_variants env u (c_trail c'))"
  using assms
proof (induction "6 - k" arbitrary: k c)
  case 0
  then have k6: "k = 6" by simp
  with "0.prems" have floor: "\<not> dbl (1 / 10) \<le> c_quality c"
    using loop_quality_v2_floor by simp
  then have "compress_loop env u c = Some (Inr c)"
    by (rule compress_loop_exit)
  then show ?case using "0.prems" k6 by simp
next
  case (Suc n)
  then have klt: "k < 6" by simp
  have above: "dbl (1 / 10) \<le> c_quality c"
    using loop_quality_v2_above [OF klt] Suc.prems by simp
  let ?opts = "\<lparr>compress = c_quality c, format = JPEG, want_base64 = True\<rparr>"
  have opts: "?opts = \<lparr>compress = loop_quality_v2 k, format = JPEG, want_base64 = True\<rparr>"
    using Suc.prems by simp
  show ?case
  proof (cases "manipulateAsync env u [] ?opts")
    case (Inl e)
    then show ?thesis using compress_loop_throw [OF above] by simp
  next
    case (Inr result)
    have var: "variant env u k = Inr (base64 result)"
      using Inr opts by (simp add: variant_def)
    have rec: "records_variants env u (c_trail c @ [(c_quality c, base64 result)])"
      using Suc.prems var
      by (auto simp: records_variants_def nth_append less_Suc_eq)
    show ?thesis
    proof (cases "truthy (map_option JStr (base64 result))")
      case False
      let ?c = "c\<lparr>c_trail := c_trail c @ [(c_quality c, base64 result)]\<rparr>"
      have "compress_loop env u c = Some (Inr ?c)"
        by (rule compress_loop_no_base64 [OF above Inr False])
      then show ?thesis using rec Suc.prems klt by simp
    next
      case True
      then obtain m where m: "base64 result = Some m" "m \<noteq> []"
        by (cases "base64 result") auto
      show ?thesis
      proof (cases "calcBytes m \<le> maxBytes")
        case under: True
        let ?c = "\<lparr>c_quality = c_quality c, c_manipulated = Some m,
                   c_trail = c_trail c @ [(c_quality c, Some m)]\<rparr>"
        have "compress_loop env u c = Some (Inr ?c)"
          by (rule compress_loop_under [OF above Inr m under])
        then show ?thesis using rec m Suc.prems klt by simp
      next
        case over: False
        let ?c = "\<lparr>c_quality = dbl (c_quality c - dbl (15 / 100)), c_manipulated = Some m,
                   c_trail = c_trail c @ [(c_quality c, Some m)]\<rparr>"
        have unfold: "compress_loop env u c = compress_loop env u ?c"
          by (rule compress_loop_step [OF above Inr m over])
        have n: "n = 6 - Suc k" using Suc.hyps by simp
        have k': "Suc k \<le> 6" using klt by simp
        have q': "c_quality ?c = loop_quality_v2 (Suc k)" using Suc.prems by simp
        have len: "length (c_trail ?c) = Suc k" using Suc.prems by simp
        have rec': "records_variants env u (c_trail ?c)" using rec m by simp
        from Suc.hyps(1) [OF n k' q' len rec'] unfold show ?thesis by simp
      qed
    qed
  qed
qed


lemma loop_quality_v2_antimono:
  assumes "i \<le> j" and "j \<le> 6"
  shows "loop_quality_v2 j \<le> loop_quality_v2 i"
  using assms
proof (induction j)
  case 0
  then show ?case by simp
next
  case (Suc j)
  show ?case
  proof (cases "i = Suc j")
    case True
    then show ?thesis by simp
  next
    case False
    then have ij: "i \<le> j" and j: "j < 6" using Suc.prems by simp_all
    have "loop_quality_v2 (Suc j) < loop_quality_v2 j"
      using j by (rule loop_quality_v2_decreases)
    moreover have "loop_quality_v2 j \<le> loop_quality_v2 i"
      using ij j by (intro Suc.IH) simp_all
    ultimately show ?thesis by simp
  qed
qed

lemma variant_monotone:
  assumes "quality_monotone env u" and "i \<le> j" and "j \<le> 6"
    and "variant env u i = Inr (Some a)" and "variant env u j = Inr (Some b)"
  shows "calcBytes b \<le> calcBytes a"
proof -
  have q: "loop_quality_v2 j \<le> loop_quality_v2 i"
    using assms(2,3) by (rule loop_quality_v2_antimono)
  from assms(4) obtain r where
    r: "manipulateAsync env u [] \<lparr>compress = loop_quality_v2 i, format = JPEG, want_base64 = True\<rparr> = Inr r"
      "base64 r = Some a"
    by (auto simp: variant_def split: sum.splits)
  from assms(5) obtain r' where
    r': "manipulateAsync env u [] \<lparr>compress = loop_quality_v2 j, format = JPEG, want_base64 = True\<rparr> = Inr r'"
      "base64 r' = Some b"
    by (auto simp: variant_def split: sum.splits)
  from assms(1) q r r' show ?thesis
    unfolding quality_monotone_def by blast
qed








lemma sizes_descend:
  assumes rec: "records_variants env u tr" and len: "length tr \<le> 6"
    and mono: "quality_monotone env u"
  shows "sorted_wrt (\<ge>) (map calcBytes (List.map_filter snd tr))"
proof -
  let ?R = "\<lambda>x y. \<forall>a b. snd x = Some a \<longrightarrow> snd y = Some b \<longrightarrow> calcBytes b \<le> calcBytes a"
  have "sorted_wrt ?R tr"
    unfolding sorted_wrt_iff_nth_less
  proof (intro allI impI)
    fix i j a b
    assume ij: "i < j" and j: "j < length tr"
      and a: "snd (tr ! i) = Some a" and b: "snd (tr ! j) = Some b"
    have "variant env u i = Inr (Some a)" "variant env u j = Inr (Some b)"
      using rec ij j a b by (simp_all add: records_variants_def)
    with mono show "calcBytes b \<le> calcBytes a"
      using ij j len by (intro variant_monotone [of env u i j a b]) simp_all
  qed
  then have "sorted_wrt ?R (filter (\<lambda>x. snd x \<noteq> None) tr)"
    by (rule sorted_wrt_filter)
  then have "sorted_wrt (\<lambda>x y. calcBytes ((the \<circ> snd) y) \<le> calcBytes ((the \<circ> snd) x))
               (filter (\<lambda>x. snd x \<noteq> None) tr)"
    by (rule sorted_wrt_mono_rel [rotated]) auto
  then show ?thesis
    by (simp add: map_filter_def sorted_wrt_map)
qed

lemma sizeReducer_recorded:
  "\<exists>res. sizeReducer env u = Some res \<and>
      (\<forall>r. res = Inr r \<longrightarrow>
         int (iterations r) \<le> 6 \<and>
         map fst (r_trail r) = dbl (7 / 10) # map loop_quality [0..<iterations r] \<and>
         (encoder_shrinks env \<longrightarrow> sorted_wrt (\<ge>) (map snd (r_trail r))) \<and>
         records_candidates env u (r_trail r))"
proof -
  obtain res where res: "sizeReducer env u = Some res"
    and post: "\<forall>r. res = Inr r \<longrightarrow>
        (\<exists>k\<le>6. candidate_inv env u k r \<and> r_quality r = loop_quality k \<and>
           (r_size r \<le> MAX_FILE_SIZE \<or> k = 6))"
    using sizeReducer_candidates [of env u] by blast
  have "int (iterations r) \<le> 6 \<and>
         map fst (r_trail r) = dbl (7 / 10) # map loop_quality [0..<iterations r] \<and>
         (encoder_shrinks env \<longrightarrow> sorted_wrt (\<ge>) (map snd (r_trail r))) \<and>
         records_candidates env u (r_trail r)"
    if "res = Inr r" for r
  proof -
    have "\<exists>k\<le>6. candidate_inv env u k r \<and> r_quality r = loop_quality k \<and>
           (r_size r \<le> MAX_FILE_SIZE \<or> k = 6)"
      using post that by simp
    then obtain k where k6: "k \<le> 6" and cinv: "candidate_inv env u k r" by auto
    have k: "k \<le> 6" "reducer_inv env k r"
      using k6 cinv by (simp_all add: candidate_inv_def)
    have len: "length (r_trail r) = Suc k" using k(2) by (rule reducer_inv_length)
    have "records_candidates env u (r_trail r)"
      unfolding records_candidates_def
    proof (intro allI impI)
      fix i assume "i < length (r_trail r)"
      then have "i \<le> k" using len by simp
      then obtain v where "candidate env u i = Inr v"
        "getFileSize env v = Inr (snd (r_trail r ! i))"
        using cinv unfolding candidate_inv_def by blast
      then have "measured env u i = Inr (v, snd (r_trail r ! i))"
        by (simp add: measured_def)
      then show "case measured env u i of Inl e \<Rightarrow> False | Inr (v, sz) \<Rightarrow> snd (r_trail r ! i) = sz"
        by simp
    qed
    moreover have "int (iterations r) \<le> 6"
      "map fst (r_trail r) = dbl (7 / 10) # map loop_quality [0..<iterations r]"
      "encoder_shrinks env \<longrightarrow> sorted_wrt (\<ge>) (map snd (r_trail r))"
      by (rule reducer_inv_facts [OF k])+
    ultimately show ?thesis by (intro conjI)
  qed
  with res show ?thesis by blast
qed

lemma compress_loop_descends:
  "\<exists>res. compress_loop env u
             \<lparr>c_quality = dbl (9 / 10), c_manipulated = None, c_trail = []\<rparr> = Some res \<and>
      (\<forall>c. res = Inr c \<longrightarrow>
         int (length (c_trail c)) \<le> 6 \<and>
         map fst (c_trail c) = map loop_quality_v2 [0..<length (c_trail c)] \<and>
         records_variants env u (c_trail c) \<and>
         (quality_monotone env u \<longrightarrow>
            sorted_wrt (\<ge>) (map calcBytes (List.map_filter snd (c_trail c)))))"
proof -
  let ?c0 = "\<lparr>c_quality = dbl (9 / 10), c_manipulated = None, c_trail = []\<rparr>"
  obtain res where res: "compress_loop env u ?c0 = Some res"
    and post: "\<forall>c. res = Inr c \<longrightarrow>
         int (length (c_trail c)) \<le> 6 \<and>
         map fst (c_trail c) = map loop_quality_v2 [0..<length (c_trail c)]"
    using compress_loop_bounded [of env u] by blast
  have "\<exists>res. compress_loop env u ?c0 = Some res \<and>
           (\<forall>c'. res = Inr c' \<longrightarrow> length (c_trail c') \<le> 6 \<and> records_variants env u (c_trail c'))"
    by (rule compress_loop_trail [where k = 0]) (simp_all add: records_variants_def)
  with res have post2:
    "\<forall>c'. res = Inr c' \<longrightarrow> length (c_trail c') \<le> 6 \<and> records_variants env u (c_trail c')"
    by simp
  have "int (length (c_trail c)) \<le> 6 \<and>
         map fst (c_trail c) = map loop_quality_v2 [0..<length (c_trail c)] \<and>
         records_variants env u (c_trail c) \<and>
         (quality_monotone env u \<longrightarrow>
            sorted_wrt (\<ge>) (map calcBytes (List.map_filter snd (c_trail c))))"
    if "res = Inr c" for c
  proof -
    have len: "length (c_trail c) \<le> 6" and rec: "records_variants env u (c_trail c)"
      using post2 that by simp_all
    have "sorted_wrt (\<ge>) (map calcBytes (List.map_filter snd (c_trail c)))"
      if "quality_monotone env u"
      using rec len that by (rule sizes_descend)
    then show ?thesis using post that rec by simp
  qed
  with res show ?thesis by blast
qed


section \<open>Facts about the sample environments\<close>

lemma small_env_reduced:
  "sizeReducer (small_env ocr ai) [] =
     Some (Inr \<lparr>r_uri = [0x78], r_size = 500000, r_quality = dbl (6 / 10),
                r_trail = [(dbl (7 / 10), 500000)]\<rparr>)"
  by (simp add: sizeReducer_def small_env_def sample_env_def reencode_def jpeg_options_def
        getFileSize_def MAX_FILE_SIZE_def reduce_loop_exit)

lemma small_env_read: "readAsStringAsync (small_env ocr ai) x = Inr (js ''QUJD'')"
  by (simp add: small_env_def sample_env_def)

lemma small_env_payload_v2:
  "payload_v2 (small_env ocr ai) [] (js ''QUJD'') s = Some (js ''QUJD'', s)"
  by (simp add: payload_v2_def calcBytes_def maxBytes_def js_def)

lemma small_env_ocr_text:
  "ocr_text (small_env (ok_json data) ai) b =
     parsedText data"
  by (simp add: ocr_text_def small_env_def sample_env_def ocr_request_def ok_json_def)

lemma parsedText_empty_reply: "parsedText empty_reply = Inr []"
  by (simp add: parsedText_def empty_reply_def)

lemma sample_start:
  "sizeReducer (sample_env reencode sizes original ocr ai) [] =
     reduce_loop (sample_env reencode sizes original ocr ai)
       \<lparr>r_uri = [0x78], r_size = sizes 1, r_quality = loop_quality 0,
        r_trail = [(dbl (7 / 10), sizes 1)]\<rparr>"
  by (simp add: sizeReducer_def sample_env_def reencode_def getFileSize_def)

lemma sample_step:
  assumes "k < 6" and "MAX_FILE_SIZE < sizes (length v)"
  shows "reduce_loop (sample_env reencode sizes original ocr ai)
           \<lparr>r_uri = v, r_size = sizes (length v), r_quality = loop_quality k, r_trail = tr\<rparr> =
         reduce_loop (sample_env reencode sizes original ocr ai)
           \<lparr>r_uri = 0x78 # v, r_size = sizes (Suc (length v)), r_quality = loop_quality (Suc k),
            r_trail = tr @ [(loop_quality k, sizes (Suc (length v)))]\<rparr>"
proof -
  let ?env = "sample_env reencode sizes original ocr ai"
  let ?r = "\<lparr>r_uri = v, r_size = sizes (length v), r_quality = loop_quality k, r_trail = tr\<rparr>"
  have big: "MAX_FILE_SIZE < r_size ?r" using assms(2) by simp
  have above: "dbl (1 / 10) < r_quality ?r" using loop_quality_above [OF assms(1)] by simp
  have enc: "manipulateAsync ?env (r_uri ?r) [] (jpeg_options (r_quality ?r)) =
      Inr \<lparr>uri = 0x78 # v, base64 = None\<rparr>"
    by (simp add: sample_env_def reencode_def jpeg_options_def)
  have sz: "getFileSize ?env (uri \<lparr>uri = 0x78 # v, base64 = None\<rparr>) = Inr (sizes (Suc (length v)))"
    by (simp add: sample_env_def getFileSize_def)
  show ?thesis
    using reduce_loop_step [OF big above enc sz] by simp
qed

lemma growing_env_run:
  "sizeReducer growing_env [] =
     Some (Inr \<lparr>r_uri = [0x78, 0x78, 0x78], r_size = 1000000, r_quality = loop_quality 2,
                r_trail = [(dbl (7 / 10), 2000000), (loop_quality 0, 3000000),
                           (loop_quality 1, 1000000)]\<rparr>)"
proof -
  let ?sizes = "\<lambda>n::nat. if n = 1 then 2000000 else if n = 2 then 3000000 else (1000000::nat)"
  let ?env = "sample_env reencode ?sizes (js ''QUJD'') (ok_json hello_reply) (ok_json greeting_reply)"
  have "sizeReducer ?env [] =
      reduce_loop ?env \<lparr>r_uri = [0x78], r_size = ?sizes (length [0x78 :: 16 word]),
        r_quality = loop_quality 0, r_trail = [(dbl (7 / 10), 2000000)]\<rparr>"
    using sample_start [of ?sizes] by simp
  also have "\<dots> = reduce_loop ?env \<lparr>r_uri = [0x78, 0x78],
        r_size = ?sizes (length [0x78 :: 16 word, 0x78]),
        r_quality = loop_quality 1,
        r_trail = [(dbl (7 / 10), 2000000), (loop_quality 0, 3000000)]\<rparr>"
    using sample_step [of 0 ?sizes "[0x78]"] by (simp add: MAX_FILE_SIZE_def)
  also have "\<dots> = reduce_loop ?env \<lparr>r_uri = [0x78, 0x78, 0x78],
        r_size = 1000000, r_quality = loop_quality 2,
        r_trail = [(dbl (7 / 10), 2000000), (loop_quality 0, 3000000),
                   (loop_quality 1, 1000000)]\<rparr>"
    using sample_step [of 1 ?sizes "[0x78, 0x78]"]
    by (simp add: MAX_FILE_SIZE_def numeral_2_eq_2 del: loop_quality.simps)
  also have "\<dots> = Some (Inr \<lparr>r_uri = [0x78, 0x78, 0x78],
        r_size = 1000000, r_quality = loop_quality 2,
        r_trail = [(dbl (7 / 10), 2000000), (loop_quality 0, 3000000),
                   (loop_quality 1, 1000000)]\<rparr>)"
    by (rule reduce_loop_exit) (simp add: MAX_FILE_SIZE_def)
  finally show ?thesis by (simp only: growing_env_def)
qed

lemma shrinking_env_run:
  "sizeReducer shrinking_env [] =
     Some (Inr \<lparr>r_uri = [0x78, 0x78, 0x78], r_size = 300000, r_quality = loop_quality 2,
                r_trail = [(dbl (7 / 10), 2100000), (loop_quality 0, 1200000),
                           (loop_quality 1, 300000)]\<rparr>)"
proof -
  let ?sizes = "\<lambda>n::nat. 3000000 - 900000 * n"
  let ?env = "sample_env reencode ?sizes (js ''QUJD'') (ok_json hello_reply) (ok_json greeting_reply)"
  have "sizeReducer ?env [] =
      reduce_loop ?env \<lparr>r_uri = [0x78], r_size = ?sizes (length [0x78 :: 16 word]),
        r_quality = loop_quality 0, r_trail = [(dbl (7 / 10), 2100000)]\<rparr>"
    using sample_start [of ?sizes] by simp
  also have "\<dots> = reduce_loop ?env \<lparr>r_uri = [0x78, 0x78],
        r_size = ?sizes (length [0x78 :: 16 word, 0x78]),
        r_quality = loop_quality 1,
        r_trail = [(dbl (7 / 10), 2100000), (loop_quality 0, 1200000)]\<rparr>"
    using sample_step [of 0 ?sizes "[0x78]"] by (simp add: MAX_FILE_SIZE_def)
  also have "\<dots> = reduce_loop ?env \<lparr>r_uri = [0x78, 0x78, 0x78],
        r_size = 300000, r_quality = loop_quality 2,
        r_trail = [(dbl (7 / 10), 2100000), (loop_quality 0, 1200000),
                   (loop_quality 1, 300000)]\<rparr>"
    using sample_step [of 1 ?sizes "[0x78, 0x78]"]
    by (simp add: MAX_FILE_SIZE_def numeral_2_eq_2 del: loop_quality.simps)
  also have "\<dots> = Some (Inr \<lparr>r_uri = [0x78, 0x78, 0x78],
        r_size = 300000, r_quality = loop_quality 2,
        r_trail = [(dbl (7 / 10), 2100000), (loop_quality 0, 1200000),
                   (loop_quality 1, 300000)]\<rparr>)"
    by (rule reduce_loop_exit) (simp add: MAX_FILE_SIZE_def)
  finally show ?thesis by (simp only: shrinking_env_def)
qed

lemma shrinking_env_shrinks: "encoder_shrinks shrinking_env"
  by (auto simp: encoder_shrinks_def shrinking_env_def sample_env_def reencode_def
        getFileSize_def)

lemma big_original_bytes: "calcBytes big_original = 1050000"
  by (simp add: calcBytes_def big_original_def)

lemma big_env_run:
  "compress_loop big_env u \<lparr>c_quality = dbl (9 / 10), c_manipulated = None, c_trail = []\<rparr> =
     Some (Inr \<lparr>c_quality = dbl (9 / 10), c_manipulated = Some (js ''QUJD''),
                c_trail = [(dbl (9 / 10), Some (js ''QUJD''))]\<rparr>)"
proof -
  let ?c0 = "\<lparr>c_quality = dbl (9 / 10), c_manipulated = None, c_trail = []\<rparr>"
  have above: "dbl (1 / 10) \<le> c_quality ?c0"
    using loop_quality_v2_above [of 0] by simp
  have enc: "manipulateAsync big_env u []
      \<lparr>compress = c_quality ?c0, format = JPEG, want_base64 = True\<rparr> =
      Inr \<lparr>uri = 0x78 # u, base64 = Some (js ''QUJD'')\<rparr>"
    by (simp add: big_env_def sample_env_def reencode_def)
  have b: "base64 \<lparr>uri = 0x78 # u, base64 = Some (js ''QUJD'')\<rparr> = Some (js ''QUJD'')"
    by simp
  have ne: "js ''QUJD'' \<noteq> []" by (simp add: js_def)
  have under: "calcBytes (js ''QUJD'') \<le> maxBytes"
    by (simp add: calcBytes_def maxBytes_def js_def)
  show ?thesis
    using compress_loop_under [OF above enc b ne under] by simp
qed

lemma throwing_env_run:
  "compress_loop throwing_env u \<lparr>c_quality = dbl (9 / 10), c_manipulated = None, c_trail = []\<rparr> =
     Some (Inl (Rejected (js ''Could not decode image'')))"
proof -
  let ?c0 = "\<lparr>c_quality = dbl (9 / 10), c_manipulated = None, c_trail = []\<rparr>"
  have above: "dbl (1 / 10) \<le> c_quality ?c0"
    using loop_quality_v2_above [of 0] by simp
  have enc: "manipulateAsync throwing_env u []
      \<lparr>compress = c_quality ?c0, format = JPEG, want_base64 = True\<rparr> =
      Inl (Rejected (js ''Could not decode image''))"
    by (simp add: throwing_env_def sample_env_def reject_all_def)
  show ?thesis
    by (rule compress_loop_throw [OF above enc])
qed

lemma throwing_env_payload:
  "payload_v2 throwing_env u big_original s =
     Some (big_original,
           s\<lparr>warnings := warnings s @
             [js ''Image compression step failed, continuing with original image:'']\<rparr>)"
  by (simp add: payload_v2_def big_original_bytes maxBytes_def throwing_env_run)

lemma big_env_payload:
  "payload_v2 big_env u big_original s = Some (js ''QUJD'', s)"
  by (simp add: payload_v2_def big_original_bytes maxBytes_def big_env_run js_def)

lemma throwing_env_facts:
  "readAsStringAsync throwing_env u = Inr big_original"
  "sizeReducer throwing_env u = Some (Inl (Rejected (js ''Could not decode image'')))"
  "ocr_text throwing_env b = Inr []"
  "maxBytes < calcBytes big_original"
     apply (simp add: throwing_env_def sample_env_def)
    apply (simp add: throwing_env_def sample_env_def sizeReducer_def reject_all_def)
   apply (simp add: throwing_env_def sample_env_def ocr_text_def ocr_request_def ok_json_def
      parsedText_empty_reply)
  apply (simp add: big_original_bytes maxBytes_def)
  done

lemma throwing_env_v2:
  "extractText_v2 throwing_env [] initial_ui =
     Some \<lparr>extractedText = [], aiResult = JStr [], loading = False,
           alerts = [(js ''No text detected'', js ''Try another image with clearer text.'')],
           errors = [],
           warnings = [js ''Image compression step failed, continuing with original image:''],
           requests = [ocr_request big_original]\<rparr>"
  by (simp add: extractText_v2_def throwing_env_facts throwing_env_payload ocr_stage_no_text
        start_run_def initial_ui_def)

lemma small_env_fetch:
  "fetch (small_env ocr ai) (ocr_request b) = ocr"
  by (simp add: small_env_def sample_env_def ocr_request_def)

lemma server_error_run:
  "extractText server_error_env [] initial_ui =
     Some \<lparr>extractedText = [], aiResult = JStr [], loading = False,
           alerts = [(js ''No text detected'', js ''Try another image with clearer text.'')],
           errors = [], warnings = [], requests = [ocr_request (js ''QUJD'')]\<rparr>"
proof -
  have "ocr_text server_error_env (js ''QUJD'') = Inr []"
    by (simp add: server_error_env_def ocr_text_def small_env_fetch parsedText_def)
  then show ?thesis
    by (simp add: server_error_env_def extractText_def small_env_reduced small_env_read
          ocr_stage_no_text start_run_def initial_ui_def)
qed

text \<open>
  The loop of the first listing can run six times: with exact decimal arithmetic the
  sixth test would compare 0.1 with 0.1 and stop, but the double reached after five
  subtractions is 0.10000000000000003.
\<close>

lemma stubborn_loop:
  assumes "k \<le> 6"
  shows "reduce_loop stubborn_env
           \<lparr>r_uri = v, r_size = 2000000, r_quality = loop_quality k, r_trail = tr\<rparr> =
         Some (Inr \<lparr>r_uri = replicate (6 - k) 0x78 @ v, r_size = 2000000,
                    r_quality = loop_quality 6,
                    r_trail = tr @ map (\<lambda>i. (loop_quality i, 2000000)) [k..<6]\<rparr>)"
  using assms
proof (induction "6 - k" arbitrary: k v tr)
  case 0
  then have k: "k = 6" by simp
  have "reduce_loop stubborn_env
          \<lparr>r_uri = v, r_size = 2000000, r_quality = loop_quality 6, r_trail = tr\<rparr> =
        Some (Inr \<lparr>r_uri = v, r_size = 2000000, r_quality = loop_quality 6, r_trail = tr\<rparr>)"
    using loop_quality_floor by (intro reduce_loop_exit) simp
  then show ?case unfolding k by simp
next
  case (Suc n)
  then have klt: "k < 6" by simp
  have big: "MAX_FILE_SIZE < (\<lambda>n. 2000000) (length v)" by (simp add: MAX_FILE_SIZE_def)
  have "reduce_loop stubborn_env
          \<lparr>r_uri = v, r_size = 2000000, r_quality = loop_quality k, r_trail = tr\<rparr> =
        reduce_loop stubborn_env
          \<lparr>r_uri = 0x78 # v, r_size = 2000000, r_quality = loop_quality (Suc k),
           r_trail = tr @ [(loop_quality k, 2000000)]\<rparr>"
    unfolding stubborn_env_def using sample_step [OF klt big] .
  also have "\<dots> =
        Some (Inr \<lparr>r_uri = replicate (6 - Suc k) 0x78 @ 0x78 # v, r_size = 2000000,
                   r_quality = loop_quality 6,
                   r_trail = (tr @ [(loop_quality k, 2000000)]) @
                     map (\<lambda>i. (loop_quality i, 2000000)) [Suc k..<6]\<rparr>)"
    using Suc.hyps(2) klt by (intro Suc.hyps(1)) simp_all
  also have "replicate (6 - Suc k) 0x78 @ 0x78 # v = replicate (6 - k) (0x78 :: 16 word) @ v"
  proof -
    have "6 - k = Suc (6 - Suc k)" using klt by simp
    then have "replicate (6 - k) (0x78 :: 16 word) = 0x78 # replicate (6 - Suc k) 0x78"
      by (simp only: replicate_Suc)
    then show ?thesis by (simp only: replicate_app_Cons_same append_Cons)
  qed
  also have "(tr @ [(loop_quality k, 2000000 :: nat)]) @
                     map (\<lambda>i. (loop_quality i, 2000000)) [Suc k..<6] =
      tr @ map (\<lambda>i. (loop_quality i, 2000000)) [k..<6]"
    using klt by (simp add: upt_conv_Cons del: loop_quality.simps)
  finally show ?case .
qed

lemma stubborn_env_run:
  "sizeReducer stubborn_env [] =
     Some (Inr \<lparr>r_uri = replicate 6 0x78 @ [0x78], r_size = 2000000,
                r_quality = loop_quality 6,
                r_trail = [(dbl (7 / 10), 2000000)] @
                  map (\<lambda>i. (loop_quality i, 2000000)) [0..<6]\<rparr>)"
proof -
  have "sizeReducer stubborn_env [] =
      reduce_loop stubborn_env
        \<lparr>r_uri = [0x78], r_size = 2000000, r_quality = loop_quality 0,
         r_trail = [(dbl (7 / 10), 2000000)]\<rparr>"
    unfolding stubborn_env_def by (rule sample_start)
  also have "\<dots> = Some (Inr \<lparr>r_uri = replicate (6 - 0) 0x78 @ [0x78], r_size = 2000000,
                r_quality = loop_quality 6,
                r_trail = [(dbl (7 / 10), 2000000)] @
                  map (\<lambda>i. (loop_quality i, 2000000)) [0..<6]\<rparr>)"
    by (rule stubborn_loop) simp
  finally show ?thesis by simp
qed

lemma stubborn_env_iterations:
  "iterations \<lparr>r_uri = replicate 6 0x78 @ [0x78], r_size = 2000000,
                r_quality = loop_quality 6,
                r_trail = [(dbl (7 / 10), 2000000)] @
                  map (\<lambda>i. (loop_quality i, 2000000)) [0..<6]\<rparr> = 6 \<and>
   \<not> (2000000 :: nat) \<le> MAX_FILE_SIZE \<and>
   loop_quality 5 = 1801439850948199 / 18014398509481984 \<and>
   dbl (1 / 10) = 3602879701896397 / 36028797018963968"
  by (simp add: iterations_def MAX_FILE_SIZE_def loop_quality_values dbl_literals
        del: loop_quality.simps)


section \<open>Facts about further sample environments\<close>

lemma variant_quality_env:
  "variant (quality_env out) u i = Inr (out (loop_quality_v2 i))"
  by (simp add: variant_def quality_env_def sample_env_def encode_by_def)

lemma quality_env_step:
  "manipulateAsync (quality_env out) u [] \<lparr>compress = q, format = JPEG, want_base64 = True\<rparr> =
     Inr \<lparr>uri = 0x78 # u, base64 = out q\<rparr>"
  by (simp add: quality_env_def sample_env_def encode_by_def)

lemma variant_bytes:
  "calcBytes (replicate 1398104 (0x41 :: 16 word)) = 1048578"
  "calcBytes (replicate 1399000 (0x41 :: 16 word)) = 1049250"
  "calcBytes (replicate 4 (0x41 :: 16 word)) = 3"
  "maxBytes = 1048576"
  by (simp_all add: calcBytes_def maxBytes_def)



lemma growing_v2_env_variants:
  "variant growing_v2_env u 0 = Inr (Some (replicate 1398104 0x41))"
  "variant growing_v2_env u 1 = Inr (Some (replicate 1399000 0x41))"
  "variant growing_v2_env u 2 = Inr (Some (replicate 4 0x41))"
  by (simp_all only: growing_v2_env_def variant_quality_env loop_quality_v2_values) simp_all




lemma fading_env_monotone: "quality_monotone fading_env u"
  unfolding quality_monotone_def fading_env_def quality_env_step
  by (auto simp: calcBytes_def split: if_splits)





lemma quality_env_run3:
  assumes a: "out (loop_quality_v2 0) = Some a" "a \<noteq> []" "\<not> calcBytes a \<le> maxBytes"
    and b: "out (loop_quality_v2 1) = Some b" "b \<noteq> []" "\<not> calcBytes b \<le> maxBytes"
    and c: "out (loop_quality_v2 2) = Some c" "c \<noteq> []" "calcBytes c \<le> maxBytes"
  shows "compress_loop (quality_env out) u
           \<lparr>c_quality = dbl (9 / 10), c_manipulated = None, c_trail = []\<rparr> =
         Some (Inr \<lparr>c_quality = loop_quality_v2 2, c_manipulated = Some c,
                    c_trail = [(loop_quality_v2 0, Some a), (loop_quality_v2 1, Some b),
                               (loop_quality_v2 2, Some c)]\<rparr>)"
proof -
  let ?env = "quality_env out"
  let ?c0 = "\<lparr>c_quality = loop_quality_v2 0, c_manipulated = None, c_trail = []\<rparr>"
  let ?c1 = "\<lparr>c_quality = loop_quality_v2 1, c_manipulated = Some a,
              c_trail = [(loop_quality_v2 0, Some a)]\<rparr>"
  let ?c2 = "\<lparr>c_quality = loop_quality_v2 2, c_manipulated = Some b,
              c_trail = [(loop_quality_v2 0, Some a), (loop_quality_v2 1, Some b)]\<rparr>"
  have s1: "loop_quality_v2 1 = dbl (loop_quality_v2 0 - dbl (15 / 100))"
    using loop_quality_v2.simps(2) [of 0] by simp
  have s2: "loop_quality_v2 2 = dbl (loop_quality_v2 1 - dbl (15 / 100))"
    using loop_quality_v2.simps(2) [of 1] by (simp add: numeral_2_eq_2)
  have above: "dbl (1 / 10) \<le> loop_quality_v2 0" "dbl (1 / 10) \<le> loop_quality_v2 1"
    "dbl (1 / 10) \<le> loop_quality_v2 2"
    by (rule loop_quality_v2_above, simp)+
  have "compress_loop ?env u ?c0 = compress_loop ?env u ?c1"
    using compress_loop_step [of ?c0 ?env u "\<lparr>uri = 0x78 # u, base64 = out (loop_quality_v2 0)\<rparr>" a]
      above(1) a
    by (simp add: quality_env_step numeral_2_eq_2)
  also have "\<dots> = compress_loop ?env u ?c2"
    using compress_loop_step [of ?c1 ?env u "\<lparr>uri = 0x78 # u, base64 = out (loop_quality_v2 1)\<rparr>" b]
      above(2) b
    by (simp add: quality_env_step numeral_2_eq_2)
  also have "\<dots> = Some (Inr \<lparr>c_quality = loop_quality_v2 2, c_manipulated = Some c,
                    c_trail = [(loop_quality_v2 0, Some a), (loop_quality_v2 1, Some b),
                               (loop_quality_v2 2, Some c)]\<rparr>)"
    using compress_loop_under [of ?c2 ?env u "\<lparr>uri = 0x78 # u, base64 = out (loop_quality_v2 2)\<rparr>" c]
      above(3) c
    by (simp add: quality_env_step numeral_2_eq_2)
  finally show ?thesis by (simp add: numeral_2_eq_2)
qed

lemma growing_v2_env_run:
  "compress_loop growing_v2_env u
     \<lparr>c_quality = dbl (9 / 10), c_manipulated = None, c_trail = []\<rparr> =
   Some (Inr \<lparr>c_quality = loop_quality_v2 2, c_manipulated = Some (replicate 4 0x41),
              c_trail = [(loop_quality_v2 0, Some (replicate 1398104 0x41)),
                         (loop_quality_v2 1, Some (replicate 1399000 0x41)),
                         (loop_quality_v2 2, Some (replicate 4 0x41))]\<rparr>)"
  unfolding growing_v2_env_def
  by (rule quality_env_run3)
    (simp_all only: loop_quality_v2_values, simp_all add: calcBytes_def maxBytes_def)

lemma shrinking_v2_env_run:
  "compress_loop shrinking_v2_env u
     \<lparr>c_quality = dbl (9 / 10), c_manipulated = None, c_trail = []\<rparr> =
   Some (Inr \<lparr>c_quality = loop_quality_v2 2, c_manipulated = Some (replicate 4 0x41),
              c_trail = [(loop_quality_v2 0, Some (replicate 1399000 0x41)),
                         (loop_quality_v2 1, Some (replicate 1398104 0x41)),
                         (loop_quality_v2 2, Some (replicate 4 0x41))]\<rparr>)"
  unfolding shrinking_v2_env_def
  by (rule quality_env_run3)
    (simp_all only: loop_quality_v2_values, simp_all add: calcBytes_def maxBytes_def)

lemma shrinking_v2_env_monotone: "quality_monotone shrinking_v2_env u"
  unfolding quality_monotone_def shrinking_v2_env_def quality_env_step
  by (auto simp: calcBytes_def)






section \<open>The busy flag in the states of a run\<close>

lemma ocr_states_last: "snd (last (ocr_states env b64 s)) = ocr_stage env b64 s"
  by (simp add: ocr_states_def ocr_stage_def Let_def split: sum.splits)

lemma ocr_states_busy:
  "busy_by_state (ocr_states env b64 s) =
     (ExtractingText, loading s) #
     (case ocr_text env b64 of
        Inl e \<Rightarrow> [(Failed, False)]
      | Inr text \<Rightarrow>
          if text \<noteq> [] then
            [(Explaining, False), (if analysis_fails env text then Failed else Done, False)]
          else [(Done, False)])"
  by (simp add: ocr_states_def Let_def loading_analyze_resume split: sum.splits)

lemma extractText_states_last:
  "\<exists>tr. extractText_states env u s = Some tr \<and> extractText env u s = Some (snd (last tr))"
proof -
  obtain res where res: "sizeReducer env u = Some res"
    using sizeReducer_run [of env u] by blast
  show ?thesis
  proof (cases res)
    case (Inl e)
    with res show ?thesis by (simp add: extractText_states_def extractText_def Let_def)
  next
    case (Inr r)
    with res show ?thesis
      by (cases "readAsStringAsync env (r_uri r)")
        (simp_all add: extractText_states_def extractText_def Let_def ocr_states_last,
         simp add: ocr_states_def Let_def)
  qed
qed

lemma extractText_v2_states_last:
  "\<exists>tr. extractText_v2_states env u s = Some tr \<and> extractText_v2 env u s = Some (snd (last tr))"
proof (cases "readAsStringAsync env u")
  case (Inl e)
  then show ?thesis by (simp add: extractText_v2_states_def extractText_v2_def Let_def)
next
  case (Inr b64)
  obtain p s2 where "payload_v2 env u b64 (start_run s) = Some (p, s2)"
    using payload_v2_total [of env u b64 "start_run s"] by blast
  with Inr show ?thesis
    by (simp add: extractText_v2_states_def extractText_v2_def Let_def ocr_states_last)
      (simp add: ocr_states_def Let_def)
qed

lemma payload_v2_loading:
  assumes "payload_v2 env u b64 s = Some (p, s2)"
  shows "loading s2 = loading s"
  using assms
  by (auto simp: payload_v2_def split: if_splits option.splits sum.splits)

text \<open>
  In every run of either listing the flag is up in \<open>Reducing\<close> and \<open>ExtractingText\<close> and
  down in \<open>Explaining\<close>, \<open>Done\<close> and \<open>Failed\<close>.
\<close>

lemma busy_flag_by_state:
  assumes "extractText_states env u s = Some tr \<or> extractText_v2_states env u s = Some tr"
    and "(st, b) \<in> set (tl (busy_by_state tr))"
  shows "b \<longleftrightarrow> st = Reducing \<or> st = ExtractingText"
proof -
  have ocr: "b' \<longleftrightarrow> st' = Reducing \<or> st' = ExtractingText"
    if "(st', b') \<in> set (busy_by_state (ocr_states env' p s'))" and "loading s'"
    for st' b' env' p s'
    using that unfolding ocr_states_busy
    by (auto split: sum.splits if_splits)
  from assms(1) show ?thesis
  proof
    assume tr: "extractText_states env u s = Some tr"
    show ?thesis
    proof (cases "sizeReducer env u")
      case None
      with tr show ?thesis by (simp add: extractText_states_def Let_def)
    next
      case (Some res)
      show ?thesis
      proof (cases res)
        case (Inl e)
        with Some tr assms(2) show ?thesis
          by (auto simp: extractText_states_def start_run_def Let_def)
      next
        case (Inr r)
        show ?thesis
        proof (cases "readAsStringAsync env (r_uri r)")
          case (Inl e)
          with Some Inr tr assms(2) show ?thesis
            by (auto simp: extractText_states_def start_run_def Let_def)
        next
          case b64: (Inr b64)
          with Some Inr tr have
            "tr = (Idle, s) # (Reducing, start_run s) # ocr_states env b64 (start_run s)"
            by (simp add: extractText_states_def Let_def)
          with assms(2) have
            "(st, b) = (Reducing, True) \<or>
             (st, b) \<in> set (busy_by_state (ocr_states env b64 (start_run s)))"
            by (auto simp: start_run_def)
          then show ?thesis
          proof
            assume "(st, b) = (Reducing, True)"
            then show ?thesis by simp
          next
            assume "(st, b) \<in> set (busy_by_state (ocr_states env b64 (start_run s)))"
            then show ?thesis by (rule ocr) (simp add: start_run_def)
          qed
        qed
      qed
    qed
  next
    assume tr: "extractText_v2_states env u s = Some tr"
    show ?thesis
    proof (cases "readAsStringAsync env u")
      case (Inl e)
      with tr assms(2) show ?thesis
        by (auto simp: extractText_v2_states_def start_run_def Let_def)
    next
      case (Inr b64)
      show ?thesis
      proof (cases "payload_v2 env u b64 (start_run s)")
        case None
        with Inr tr show ?thesis by (simp add: extractText_v2_states_def Let_def)
      next
        case (Some ps)
        obtain p s2 where ps: "ps = (p, s2)" by (cases ps)
        have l: "loading s2" using payload_v2_loading [of env u b64 "start_run s" p s2] Some ps
          by (simp add: start_run_def)
        from Inr Some ps tr have
          "tr = (Idle, s) # (Reducing, start_run s) # ocr_states env p s2"
          by (simp add: extractText_v2_states_def Let_def)
        with assms(2) have
          "(st, b) = (Reducing, True) \<or> (st, b) \<in> set (busy_by_state (ocr_states env p s2))"
          by (auto simp: start_run_def)
        then show ?thesis
        proof
          assume "(st, b) = (Reducing, True)"
          then show ?thesis by simp
        next
          assume "(st, b) \<in> set (busy_by_state (ocr_states env p s2))"
          then show ?thesis using l by (rule ocr)
        qed
      qed
    qed
  qed
qed

lemma small_env_states:
  "extractText_states (small_env (ok_json hello_reply) (ok_json greeting_reply)) [] initial_ui =
     Some ((Idle, initial_ui) # (Reducing, start_run initial_ui) #
           ocr_states (small_env (ok_json hello_reply) (ok_json greeting_reply)) (js ''QUJD'')
             (start_run initial_ui))"
  by (simp add: extractText_states_def Let_def small_env_reduced small_env_read)

lemma small_env_v2_states:
  "extractText_v2_states (small_env (ok_json hello_reply) (ok_json greeting_reply)) [] initial_ui =
     Some ((Idle, initial_ui) # (Reducing, start_run initial_ui) #
           ocr_states (small_env (ok_json hello_reply) (ok_json greeting_reply)) (js ''QUJD'')
             (start_run initial_ui))"
  by (simp add: extractText_v2_states_def Let_def small_env_read small_env_payload_v2)

lemma hello_text:
  "ocr_text (small_env (ok_json hello_reply) ai) b = Inr (js ''hello world'')"
  unfolding small_env_ocr_text
  by (simp add: parsedText_def hello_reply_def js_def trim_def is_white_space_def)

lemma greeting_analysis:
  "\<not> analysis_fails (small_env ocr (ok_json greeting_reply)) t"
  by (simp add: analysis_fails_def small_env_def sample_env_def analyze_request_def ok_json_def
        greeting_reply_def)

lemma small_env_busy:
  "busy_by_state (ocr_states (small_env (ok_json hello_reply) (ok_json greeting_reply)) (js ''QUJD'')
      (start_run initial_ui)) =
   [(ExtractingText, True), (Explaining, False), (Done, False)]"
  unfolding ocr_states_busy hello_text
  by (simp add: greeting_analysis start_run_def js_def)



lemma greeting_resume:
  "analyze_resume (small_env ocr (ok_json greeting_reply)) t s =
     s\<lparr>aiResult := JStr (js ''A greeting.''), loading := False\<rparr>"
  by (simp add: analyze_resume_def Let_def small_env_def sample_env_def analyze_request_def
        ok_json_def greeting_reply_def js_def)

lemma small_env_ocr_states:
  "ocr_states (small_env (ok_json hello_reply) (ok_json greeting_reply)) (js ''QUJD'')
     (start_run initial_ui) =
   [(ExtractingText,
     \<lparr>extractedText = [], aiResult = JStr [], loading = True, alerts = [], errors = [],
      warnings = [], requests = [ocr_request (js ''QUJD'')]\<rparr>),
    (Explaining,
     \<lparr>extractedText = js ''hello world'', aiResult = JStr [], loading = False, alerts = [],
      errors = [], warnings = [],
      requests = [ocr_request (js ''QUJD''), analyze_request (js ''hello world'')]\<rparr>),
    (Done,
     \<lparr>extractedText = js ''hello world'', aiResult = JStr (js ''A greeting.''),
      loading = False, alerts = [], errors = [], warnings = [],
      requests = [ocr_request (js ''QUJD''), analyze_request (js ''hello world'')]\<rparr>)]"
proof -
  have ne: "js ''hello world'' \<noteq> []" by (simp add: js_def)
  show ?thesis
    unfolding ocr_states_def hello_text Let_def greeting_resume
    using ne greeting_analysis [of "ok_json hello_reply" "js ''hello world''"]
    by (simp add: start_run_def initial_ui_def analyze_begin_def)
qed


section \<open>The claims\<close>







text \<open>
  Claim C2 as stated fails in its last part, in both listings: the byte size of the
  candidates can grow from one iteration to the next. First listing: with a library whose
  second encoding is larger than the first, the sizes measured are 2,000,000, then
  3,000,000, then 1,000,000. Second listing: with a library that gives a longer text at
  quality 0.75 than at quality 0.9, the variants take 1,048,578 bytes, then 1,049,250,
  then 3.
\<close>

theorem candidate_size_can_grow:
  "sizeReducer growing_env [] =
     Some (Inr \<lparr>r_uri = [0x78, 0x78, 0x78], r_size = 1000000, r_quality = loop_quality 2,
                r_trail = [(dbl (7 / 10), 2000000), (loop_quality 0, 3000000),
                           (loop_quality 1, 1000000)]\<rparr>) \<and>
   \<not> (3000000 :: nat) \<le> 2000000 \<and>
   compress_loop growing_v2_env []
     \<lparr>c_quality = dbl (9 / 10), c_manipulated = None, c_trail = []\<rparr> =
     Some (Inr \<lparr>c_quality = loop_quality_v2 2, c_manipulated = Some (replicate 4 0x41),
                c_trail = [(loop_quality_v2 0, Some (replicate 1398104 0x41)),
                           (loop_quality_v2 1, Some (replicate 1399000 0x41)),
                           (loop_quality_v2 2, Some (replicate 4 0x41))]\<rparr>) \<and>
   variant growing_v2_env [] 0 = Inr (Some (replicate 1398104 0x41)) \<and>
   variant growing_v2_env [] 1 = Inr (Some (replicate 1399000 0x41)) \<and>
   calcBytes (replicate 1398104 (0x41 :: 16 word)) = 1048578 \<and>
   calcBytes (replicate 1399000 (0x41 :: 16 word)) = 1049250 \<and>
   \<not> (1049250 :: nat) \<le> 1048578"
proof -
  have grow: "\<not> (3000000 :: nat) \<le> 2000000" "\<not> (1049250 :: nat) \<le> 1048578"
    by simp_all
  show ?thesis
    using growing_env_run grow(1) growing_v2_env_run growing_v2_env_variants(1,2)
      variant_bytes(1,2) grow(2)
    by (intro conjI)
qed


text \<open>
  Claim C2, amended. Both loops end, whatever the libraries do. The loop of the first
  listing runs its body at most \<open>(0.6 - 0.1) / 0.1 + 1 = 6\<close> times, the loop of the
  second listing at most \<open>\<lfloor>(0.9 - 0.1) / 0.15\<rfloor> + 1 = 6\<close> times; the candidates are
  encoded at the qualities \<open>loop_quality 0\<close>, \<open>loop_quality 1\<close>, ... in this order,
  each the double nearest to the one before minus the step, and smaller than the one
  before. The sizes are those of the candidates, in order. In the first listing, where
  each candidate is the one before it encoded again, the measured sizes do not increase
  from one candidate to the next provided the image library never returns a larger file
  when it encodes a file again. In the second listing, where each candidate is the
  original encoded at a lower quality, the byte sizes of the base64 texts do not increase
  provided a lower quality never gives a longer text for the same image. The source
  checks neither.
\<close>

theorem reduction_loop_bounded:
  "(\<exists>res. sizeReducer env u = Some res \<and>
      (\<forall>r. res = Inr r \<longrightarrow>
         int (iterations r) \<le> \<lfloor>(6 / 10 - 1 / 10) / (1 / 10 :: rat)\<rfloor> + 1 \<and>
         map fst (r_trail r) = dbl (7 / 10) # map loop_quality [0..<iterations r] \<and>
         (encoder_shrinks env \<longrightarrow> sorted_wrt (\<ge>) (map snd (r_trail r))) \<and>
         records_candidates env u (r_trail r)))
   \<and>
   (\<exists>res. compress_loop env u
             \<lparr>c_quality = dbl (9 / 10), c_manipulated = None, c_trail = []\<rparr> = Some res \<and>
      (\<forall>c. res = Inr c \<longrightarrow>
         int (length (c_trail c)) \<le> \<lfloor>(9 / 10 - 1 / 10) / (15 / 100 :: rat)\<rfloor> + 1 \<and>
         map fst (c_trail c) = map loop_quality_v2 [0..<length (c_trail c)] \<and>
         records_variants env u (c_trail c) \<and>
         (quality_monotone env u \<longrightarrow>
            sorted_wrt (\<ge>) (map calcBytes (List.map_filter snd (c_trail c))))))
   \<and>
   (\<forall>k<6. loop_quality (Suc k) = dbl (loop_quality k - dbl (1 / 10)) \<and>
           loop_quality (Suc k) < loop_quality k)
   \<and>
   (\<forall>k<6. loop_quality_v2 (Suc k) = dbl (loop_quality_v2 k - dbl (15 / 100)) \<and>
           loop_quality_v2 (Suc k) < loop_quality_v2 k)"
proof (unfold bound_first bound_second, intro conjI)
  show "\<exists>res. sizeReducer env u = Some res \<and>
      (\<forall>r. res = Inr r \<longrightarrow>
         int (iterations r) \<le> 6 \<and>
         map fst (r_trail r) = dbl (7 / 10) # map loop_quality [0..<iterations r] \<and>
         (encoder_shrinks env \<longrightarrow> sorted_wrt (\<ge>) (map snd (r_trail r))) \<and>
         records_candidates env u (r_trail r))"
    by (rule sizeReducer_recorded)
  show "\<exists>res. compress_loop env u
             \<lparr>c_quality = dbl (9 / 10), c_manipulated = None, c_trail = []\<rparr> = Some res \<and>
      (\<forall>c. res = Inr c \<longrightarrow>
         int (length (c_trail c)) \<le> 6 \<and>
         map fst (c_trail c) = map loop_quality_v2 [0..<length (c_trail c)] \<and>
         records_variants env u (c_trail c) \<and>
         (quality_monotone env u \<longrightarrow>
            sorted_wrt (\<ge>) (map calcBytes (List.map_filter snd (c_trail c)))))"
    by (rule compress_loop_descends)
  show "\<forall>k<6. loop_quality (Suc k) = dbl (loop_quality k - dbl (1 / 10)) \<and>
           loop_quality (Suc k) < loop_quality k"
  proof (intro allI impI conjI)
    fix k :: nat
    assume "k < 6"
    then show "loop_quality (Suc k) < loop_quality k" by (rule loop_quality_decreases)
    show "loop_quality (Suc k) = dbl (loop_quality k - dbl (1 / 10))"
      by (rule loop_quality.simps(2))
  qed
  show "\<forall>k<6. loop_quality_v2 (Suc k) = dbl (loop_quality_v2 k - dbl (15 / 100)) \<and>
           loop_quality_v2 (Suc k) < loop_quality_v2 k"
  proof (intro allI impI conjI)
    fix k :: nat
    assume "k < 6"
    then show "loop_quality_v2 (Suc k) < loop_quality_v2 k" by (rule loop_quality_v2_decreases)
    show "loop_quality_v2 (Suc k) = dbl (loop_quality_v2 k - dbl (15 / 100))"
      by (rule loop_quality_v2.simps(2))
  qed
qed

text \<open>
  Instances. \<open>shrinking_env\<close>, whose library never grows a file, takes two iterations
  with sizes 2,100,000, 1,200,000 and 300,000; \<open>big_env\<close> takes one. In
  \<open>shrinking_v2_env\<close>, where a lower quality never gives a longer text, the loop of the
  second listing runs three times and the variants take 1,049,250 bytes, then 1,048,578,
  then 3.
\<close>

theorem reduction_loop_bounded_witness:
  "encoder_shrinks shrinking_env \<and>
   sizeReducer shrinking_env [] =
     Some (Inr \<lparr>r_uri = [0x78, 0x78, 0x78], r_size = 300000, r_quality = loop_quality 2,
                r_trail = [(dbl (7 / 10), 2100000), (loop_quality 0, 1200000),
                           (loop_quality 1, 300000)]\<rparr>) \<and>
   int (iterations \<lparr>r_uri = [0x78, 0x78, 0x78], r_size = 300000, r_quality = loop_quality 2,
                r_trail = [(dbl (7 / 10), 2100000), (loop_quality 0, 1200000),
                           (loop_quality 1, 300000)]\<rparr>)
     \<le> \<lfloor>(6 / 10 - 1 / 10) / (1 / 10 :: rat)\<rfloor> + 1 \<and>
   sorted_wrt (\<ge>) (map snd [(dbl (7 / 10), 2100000 :: nat), (loop_quality 0, 1200000),
                           (loop_quality 1, 300000)]) \<and>
   compress_loop big_env [] \<lparr>c_quality = dbl (9 / 10), c_manipulated = None, c_trail = []\<rparr> =
     Some (Inr \<lparr>c_quality = dbl (9 / 10), c_manipulated = Some (js ''QUJD''),
                c_trail = [(dbl (9 / 10), Some (js ''QUJD''))]\<rparr>) \<and>
   int (length [(dbl (9 / 10), Some (js ''QUJD''))])
     \<le> \<lfloor>(9 / 10 - 1 / 10) / (15 / 100 :: rat)\<rfloor> + 1 \<and>
   loop_quality (Suc 0) < loop_quality 0 \<and>
   loop_quality_v2 (Suc 0) < loop_quality_v2 0 \<and>
   quality_monotone shrinking_v2_env [] \<and>
   compress_loop shrinking_v2_env []
     \<lparr>c_quality = dbl (9 / 10), c_manipulated = None, c_trail = []\<rparr> =
     Some (Inr \<lparr>c_quality = loop_quality_v2 2, c_manipulated = Some (replicate 4 0x41),
                c_trail = [(loop_quality_v2 0, Some (replicate 1399000 0x41)),
                           (loop_quality_v2 1, Some (replicate 1398104 0x41)),
                           (loop_quality_v2 2, Some (replicate 4 0x41))]\<rparr>) \<and>
   sorted_wrt (\<ge>)
     (map calcBytes
        (List.map_filter snd
           [(loop_quality_v2 0, Some (replicate 1399000 (0x41 :: 16 word))),
            (loop_quality_v2 1, Some (replicate 1398104 0x41)),
            (loop_quality_v2 2, Some (replicate 4 0x41))])) \<and>
   map calcBytes
     (List.map_filter snd
        [(loop_quality_v2 0, Some (replicate 1399000 (0x41 :: 16 word))),
         (loop_quality_v2 1, Some (replicate 1398104 0x41)),
         (loop_quality_v2 2, Some (replicate 4 0x41))]) = [1049250, 1048578, 3]"
proof -
  let ?R = "\<lparr>r_uri = [0x78, 0x78, 0x78], r_size = 300000, r_quality = loop_quality 2,
                r_trail = [(dbl (7 / 10), 2100000), (loop_quality 0, 1200000),
                           (loop_quality 1, 300000)]\<rparr>"
  let ?C = "\<lparr>c_quality = dbl (9 / 10), c_manipulated = Some (js ''QUJD''),
                c_trail = [(dbl (9 / 10), Some (js ''QUJD''))]\<rparr>"
  let ?T = "[(loop_quality_v2 0, Some (replicate 1399000 (0x41 :: 16 word))),
            (loop_quality_v2 1, Some (replicate 1398104 0x41)),
            (loop_quality_v2 2, Some (replicate 4 0x41))]"
  let ?D = "\<lparr>c_quality = loop_quality_v2 2, c_manipulated = Some (replicate 4 0x41),
             c_trail = ?T\<rparr>"
  note th = reduction_loop_bounded [of shrinking_env "[]"]
  note th2 = reduction_loop_bounded [of big_env "[]"]
  note th3 = reduction_loop_bounded [of shrinking_v2_env "[]"]
  from th have first: "int (iterations ?R) \<le> \<lfloor>(6 / 10 - 1 / 10) / (1 / 10 :: rat)\<rfloor> + 1"
    and sorted: "encoder_shrinks shrinking_env \<longrightarrow> sorted_wrt (\<ge>) (map snd (r_trail ?R))"
    unfolding shrinking_env_run by blast+
  from th2 have second: "int (length (c_trail ?C)) \<le> \<lfloor>(9 / 10 - 1 / 10) / (15 / 100 :: rat)\<rfloor> + 1"
    unfolding big_env_run by blast
  from th3 have third: "quality_monotone shrinking_v2_env [] \<longrightarrow>
      sorted_wrt (\<ge>) (map calcBytes (List.map_filter snd (c_trail ?D)))"
    unfolding shrinking_v2_env_run by blast
  from th have dec: "loop_quality (Suc 0) < loop_quality 0"
    and dec2: "loop_quality_v2 (Suc 0) < loop_quality_v2 0" by (meson zero_less_numeral)+
  have a: "sorted_wrt (\<ge>) (map snd (r_trail ?R))"
    using sorted shrinking_env_shrinks by blast
  have b: "r_trail ?R = [(dbl (7 / 10), 2100000), (loop_quality 0, 1200000),
                           (loop_quality 1, 300000)]" by simp
  have c: "c_trail ?C = [(dbl (9 / 10), Some (js ''QUJD''))]" by simp
  have d: "sorted_wrt (\<ge>) (map calcBytes (List.map_filter snd (c_trail ?D)))"
    using third shrinking_v2_env_monotone by blast
  have e: "c_trail ?D = ?T" by simp
  have bytes: "map calcBytes (List.map_filter snd ?T) = [1049250, 1048578, 3]"
    by (simp add: map_filter_simps variant_bytes)
  show ?thesis
    using shrinking_env_shrinks shrinking_env_run big_env_run first second dec dec2
      a [unfolded b] second [unfolded c] shrinking_v2_env_monotone shrinking_v2_env_run
      d [unfolded e] bytes
    by (intro conjI)
qed


text \<open>
  Claim C3 as stated fails for a non-2xx status: the OCR service answers with status
  500 and the JSON body \<open>{}\<close>, and the run does not fail. No error is logged, and
  the alert is "No text detected".
\<close>

theorem server_error_is_not_a_failure:
  "fetch server_error_env (ocr_request (js ''QUJD'')) =
     Inr \<lparr>status = 500, json_body = Inr (JObj [])\<rparr> \<and>
   extractText server_error_env [] initial_ui =
     Some \<lparr>extractedText = [], aiResult = JStr [], loading = False,
           alerts = [(js ''No text detected'', js ''Try another image with clearer text.'')],
           errors = [], warnings = [], requests = [ocr_request (js ''QUJD'')]\<rparr>"
  using server_error_run by (simp add: server_error_env_def small_env_fetch)


text \<open>
  Claim C3, amended. In a run that reaches the OCR request (first conjunct: first
  listing; second conjunct: second listing), a rejected \<open>fetch\<close> and a body that is
  not JSON each end the run in the \<open>catch\<close> clause: the error is logged, the alert
  "Failed to extract text." is shown, the busy flag is cleared, and the OCR request is
  the only request made, so nothing is retried. The HTTP status is not looked at: a
  response with any status \<open>n\<close> whose body is JSON is processed by the extraction rule,
  the text is stored, the analysis request follows when the text is not empty, and the
  alert "Failed to extract text." is not shown.
\<close>

theorem ocr_failures_surface:
  "(sizeReducer env u = Some (Inr r) \<and> readAsStringAsync env (r_uri r) = Inr b64 \<longrightarrow>
      ((fetch env (ocr_request b64) = Inl e \<or>
        (\<exists>res. fetch env (ocr_request b64) = Inr res \<and> json_body res = Inl e)) \<longrightarrow>
         (\<exists>s'. extractText env u s = Some s' \<and>
            requests s' = requests s @ [ocr_request b64] \<and>
            errors s' = errors s @ [e] \<and>
            alerts s' = alerts s @ [(js ''Error'', js ''Failed to extract text.'')] \<and>
            extractedText s' = [] \<and> \<not> loading s')) \<and>
      (fetch env (ocr_request b64) = Inr \<lparr>status = n, json_body = Inr data\<rparr> \<and>
       parsedText data = Inr t \<longrightarrow>
         (\<exists>s'. extractText env u s = Some s' \<and>
            extractedText s' = t \<and>
            requests s' =
              requests s @ ocr_request b64 # (if t = [] then [] else [analyze_request t]) \<and>
            (\<exists>new. alerts s' = alerts s @ new \<and>
               (js ''Error'', js ''Failed to extract text.'') \<notin> set new) \<and>
            \<not> loading s')))
   \<and>
   (readAsStringAsync env u = Inr b64' \<and> payload_v2 env u b64' (start_run s) = Some (p, s2) \<longrightarrow>
      ((fetch env (ocr_request p) = Inl e \<or>
        (\<exists>res. fetch env (ocr_request p) = Inr res \<and> json_body res = Inl e)) \<longrightarrow>
         (\<exists>s'. extractText_v2 env u s = Some s' \<and>
            requests s' = requests s @ [ocr_request p] \<and>
            errors s' = errors s @ [e] \<and>
            alerts s' = alerts s @ [(js ''Error'', js ''Failed to extract text.'')] \<and>
            extractedText s' = [] \<and> \<not> loading s')) \<and>
      (fetch env (ocr_request p) = Inr \<lparr>status = n, json_body = Inr data\<rparr> \<and>
       parsedText data = Inr t \<longrightarrow>
         (\<exists>s'. extractText_v2 env u s = Some s' \<and>
            extractedText s' = t \<and>
            requests s' =
              requests s @ ocr_request p # (if t = [] then [] else [analyze_request t]) \<and>
            (\<exists>new. alerts s' = alerts s @ new \<and>
               (js ''Error'', js ''Failed to extract text.'') \<notin> set new) \<and>
            \<not> loading s')))"
proof (intro conjI impI)
  assume reach: "sizeReducer env u = Some (Inr r) \<and> readAsStringAsync env (r_uri r) = Inr b64"
  then have run: "extractText env u s = Some (ocr_stage env b64 (start_run s))"
    by (simp add: extractText_reaches_ocr)
  {
    assume "fetch env (ocr_request b64) = Inl e \<or>
        (\<exists>res. fetch env (ocr_request b64) = Inr res \<and> json_body res = Inl e)"
    then have "ocr_text env b64 = Inl e" by (rule ocr_text_failures)
    from ocr_stage_outcomes(1) [OF this, of "start_run s"] run
    show "\<exists>s'. extractText env u s = Some s' \<and>
            requests s' = requests s @ [ocr_request b64] \<and>
            errors s' = errors s @ [e] \<and>
            alerts s' = alerts s @ [(js ''Error'', js ''Failed to extract text.'')] \<and>
            extractedText s' = [] \<and> \<not> loading s'"
      by (simp add: start_run_def)
  }
  {
    assume "fetch env (ocr_request b64) = Inr \<lparr>status = n, json_body = Inr data\<rparr> \<and>
       parsedText data = Inr t"
    then have "ocr_text env b64 = Inr t" by (simp add: ocr_text_parsed)
    from ocr_stage_outcomes(2) [OF this, of "start_run s"] run
    show "\<exists>s'. extractText env u s = Some s' \<and>
            extractedText s' = t \<and>
            requests s' =
              requests s @ ocr_request b64 # (if t = [] then [] else [analyze_request t]) \<and>
            (\<exists>new. alerts s' = alerts s @ new \<and>
               (js ''Error'', js ''Failed to extract text.'') \<notin> set new) \<and>
            \<not> loading s'"
      by (simp add: start_run_def)
  }
next
  assume reach: "readAsStringAsync env u = Inr b64' \<and>
    payload_v2 env u b64' (start_run s) = Some (p, s2)"
  then have run: "extractText_v2 env u s = Some (ocr_stage env p s2)"
    by (simp add: extractText_v2_reaches_ocr)
  have "s2\<lparr>warnings := warnings (start_run s)\<rparr> = start_run s"
    using payload_v2_total [of env u b64' "start_run s"] reach by auto
  then have same: "requests s2 = requests s" "errors s2 = errors s" "alerts s2 = alerts s"
    "extractedText s2 = []"
    by (cases s2; simp add: start_run_def; cases s; simp)+
  {
    assume "fetch env (ocr_request p) = Inl e \<or>
        (\<exists>res. fetch env (ocr_request p) = Inr res \<and> json_body res = Inl e)"
    then have "ocr_text env p = Inl e" by (rule ocr_text_failures)
    from ocr_stage_outcomes(1) [OF this, of s2] run same
    show "\<exists>s'. extractText_v2 env u s = Some s' \<and>
            requests s' = requests s @ [ocr_request p] \<and>
            errors s' = errors s @ [e] \<and>
            alerts s' = alerts s @ [(js ''Error'', js ''Failed to extract text.'')] \<and>
            extractedText s' = [] \<and> \<not> loading s'"
      by simp
  }
  {
    assume "fetch env (ocr_request p) = Inr \<lparr>status = n, json_body = Inr data\<rparr> \<and>
       parsedText data = Inr t"
    then have "ocr_text env p = Inr t" by (simp add: ocr_text_parsed)
    from ocr_stage_outcomes(2) [OF this, of s2] run same
    show "\<exists>s'. extractText_v2 env u s = Some s' \<and>
            extractedText s' = t \<and>
            requests s' =
              requests s @ ocr_request p # (if t = [] then [] else [analyze_request t]) \<and>
            (\<exists>new. alerts s' = alerts s @ new \<and>
               (js ''Error'', js ''Failed to extract text.'') \<notin> set new) \<and>
            \<not> loading s'"
      by simp
  }
qed

text \<open>
  Instances: a rejected \<open>fetch\<close> (both listings), a body that is not JSON, and a
  status 500 with the JSON body \<open>{}\<close>.
\<close>

theorem ocr_failures_surface_witness:
  "fetch (small_env (Inl (Rejected (js ''Network request failed''))) (ok_json greeting_reply))
     (ocr_request (js ''QUJD'')) = Inl (Rejected (js ''Network request failed'')) \<and>
   (\<exists>s'. extractText
            (small_env (Inl (Rejected (js ''Network request failed''))) (ok_json greeting_reply))
            [] initial_ui = Some s' \<and>
      requests s' = [ocr_request (js ''QUJD'')] \<and>
      errors s' = [Rejected (js ''Network request failed'')] \<and>
      alerts s' = [(js ''Error'', js ''Failed to extract text.'')] \<and>
      extractedText s' = [] \<and> \<not> loading s') \<and>
   (\<exists>s'. extractText_v2
            (small_env (Inl (Rejected (js ''Network request failed''))) (ok_json greeting_reply))
            [] initial_ui = Some s' \<and>
      requests s' = [ocr_request (js ''QUJD'')] \<and>
      errors s' = [Rejected (js ''Network request failed'')] \<and>
      alerts s' = [(js ''Error'', js ''Failed to extract text.'')] \<and>
      extractedText s' = [] \<and> \<not> loading s') \<and>
   (\<exists>s'. extractText
            (small_env (Inr \<lparr>status = 200, json_body = Inl (Rejected (js ''JSON Parse error''))\<rparr>)
               (ok_json greeting_reply))
            [] initial_ui = Some s' \<and>
      requests s' = [ocr_request (js ''QUJD'')] \<and>
      errors s' = [Rejected (js ''JSON Parse error'')] \<and>
      alerts s' = [(js ''Error'', js ''Failed to extract text.'')] \<and>
      extractedText s' = [] \<and> \<not> loading s') \<and>
   parsedText (JObj []) = Inr [] \<and>
   (\<exists>s'. extractText server_error_env [] initial_ui = Some s' \<and>
      extractedText s' = [] \<and>
      requests s' = [ocr_request (js ''QUJD'')] \<and>
      (\<exists>new. alerts s' = new \<and> (js ''Error'', js ''Failed to extract text.'') \<notin> set new) \<and>
      \<not> loading s')"
proof -
  let ?net = "small_env (Inl (Rejected (js ''Network request failed''))) (ok_json greeting_reply)"
  let ?bad = "small_env (Inr \<lparr>status = 200, json_body = Inl (Rejected (js ''JSON Parse error''))\<rparr>)
               (ok_json greeting_reply)"
  let ?r = "\<lparr>r_uri = [0x78], r_size = 500000, r_quality = dbl (6 / 10),
             r_trail = [(dbl (7 / 10), 500000)]\<rparr>"
  have reach: "sizeReducer (small_env ocr ai) [] = Some (Inr ?r) \<and>
      readAsStringAsync (small_env ocr ai) (r_uri ?r) = Inr (js ''QUJD'')" for ocr ai
    by (simp add: small_env_reduced small_env_read)
  have reach2: "readAsStringAsync (small_env ocr ai) [] = Inr (js ''QUJD'') \<and>
      payload_v2 (small_env ocr ai) [] (js ''QUJD'') (start_run initial_ui) =
        Some (js ''QUJD'', start_run initial_ui)" for ocr ai
    by (simp add: small_env_read small_env_payload_v2)
  have net: "fetch ?net (ocr_request (js ''QUJD'')) = Inl (Rejected (js ''Network request failed''))"
    by (simp add: small_env_fetch)
  have bad: "\<exists>res. fetch ?bad (ocr_request (js ''QUJD'')) = Inr res \<and>
      json_body res = Inl (Rejected (js ''JSON Parse error''))"
    by (simp add: small_env_fetch)
  have srv: "fetch server_error_env (ocr_request (js ''QUJD'')) =
      Inr \<lparr>status = 500, json_body = Inr (JObj [])\<rparr> \<and> parsedText (JObj []) = Inr []"
    by (simp add: server_error_env_def small_env_fetch parsedText_def)
  note a = ocr_failures_surface
      [of ?net "[]" ?r "js ''QUJD''" "Rejected (js ''Network request failed'')" initial_ui
          500 "JObj []" "[]" "js ''QUJD''" "js ''QUJD''" "start_run initial_ui"]
  note b = ocr_failures_surface
      [of ?bad "[]" ?r "js ''QUJD''" "Rejected (js ''JSON Parse error'')" initial_ui
          500 "JObj []" "[]" "js ''QUJD''" "js ''QUJD''" "start_run initial_ui"]
  note c = ocr_failures_surface
      [of server_error_env "[]" ?r "js ''QUJD''" "Rejected (js ''Network request failed'')"
          initial_ui 500 "JObj []" "[]" "js ''QUJD''" "js ''QUJD''" "start_run initial_ui"]
  from a reach [of "Inl (Rejected (js ''Network request failed''))" "ok_json greeting_reply"]
       reach2 [of "Inl (Rejected (js ''Network request failed''))" "ok_json greeting_reply"] net
  have 1: "\<exists>s'. extractText ?net [] initial_ui = Some s' \<and>
      requests s' = [ocr_request (js ''QUJD'')] \<and>
      errors s' = [Rejected (js ''Network request failed'')] \<and>
      alerts s' = [(js ''Error'', js ''Failed to extract text.'')] \<and>
      extractedText s' = [] \<and> \<not> loading s'"
    and 2: "\<exists>s'. extractText_v2 ?net [] initial_ui = Some s' \<and>
      requests s' = [ocr_request (js ''QUJD'')] \<and>
      errors s' = [Rejected (js ''Network request failed'')] \<and>
      alerts s' = [(js ''Error'', js ''Failed to extract text.'')] \<and>
      extractedText s' = [] \<and> \<not> loading s'"
    by (simp_all add: initial_ui_def)
  from b reach [of "Inr \<lparr>status = 200, json_body = Inl (Rejected (js ''JSON Parse error''))\<rparr>"
                   "ok_json greeting_reply"] bad
  have 3: "\<exists>s'. extractText ?bad [] initial_ui = Some s' \<and>
      requests s' = [ocr_request (js ''QUJD'')] \<and>
      errors s' = [Rejected (js ''JSON Parse error'')] \<and>
      alerts s' = [(js ''Error'', js ''Failed to extract text.'')] \<and>
      extractedText s' = [] \<and> \<not> loading s'"
    by (simp add: initial_ui_def)
  from c reach [of "Inr \<lparr>status = 500, json_body = Inr (JObj [])\<rparr>" "ok_json greeting_reply"] srv
  have 4: "\<exists>s'. extractText server_error_env [] initial_ui = Some s' \<and>
      extractedText s' = [] \<and>
      requests s' = [ocr_request (js ''QUJD'')] \<and>
      (\<exists>new. alerts s' = new \<and> (js ''Error'', js ''Failed to extract text.'') \<notin> set new) \<and>
      \<not> loading s'"
    by (simp add: initial_ui_def server_error_env_def)
  show ?thesis
    using net 1 2 3 srv 4 by (intro conjI) simp_all
qed


text \<open>
  Claim C4 as stated fails on the second listing: the manipulator rejects the image, and
  the run still calls the OCR service, with the original image, and ends without an
  error (here with the alert "No text detected").
\<close>

theorem compression_failure_still_calls_ocr:
  "compress_loop throwing_env [] \<lparr>c_quality = dbl (9 / 10), c_manipulated = None, c_trail = []\<rparr> =
     Some (Inl (Rejected (js ''Could not decode image''))) \<and>
   extractText_v2 throwing_env [] initial_ui =
     Some \<lparr>extractedText = [], aiResult = JStr [], loading = False,
           alerts = [(js ''No text detected'', js ''Try another image with clearer text.'')],
           errors = [],
           warnings = [js ''Image compression step failed, continuing with original image:''],
           requests = [ocr_request big_original]\<rparr>"
  using throwing_env_run [of "[]"] throwing_env_v2 by (rule conjI)


text \<open>
  Claim C4, amended. First listing: when the first encoding is rejected the size
  reduction fails with that error, and whenever the size reduction fails the run goes to
  the \<open>catch\<close> clause: the error is logged, the alert "Failed to extract text." is
  shown, the busy flag is cleared and no request is made, so the OCR service is never
  called. Second listing: when the compression step throws, the exception is caught
  inside the step, a warning is logged, and the OCR request is made with the original
  image.
\<close>

theorem encoding_failure_handling:
  "(manipulateAsync env u [Resize 1280] (jpeg_options (dbl (7 / 10))) = Inl e \<longrightarrow>
      sizeReducer env u = Some (Inl e))
   \<and>
   (sizeReducer env u = Some (Inl e) \<longrightarrow>
      (\<exists>s'. extractText env u s = Some s' \<and>
         requests s' = requests s \<and>
         errors s' = errors s @ [e] \<and>
         alerts s' = alerts s @ [(js ''Error'', js ''Failed to extract text.'')] \<and>
         \<not> loading s'))
   \<and>
   (readAsStringAsync env u = Inr b64 \<and> maxBytes < calcBytes b64 \<and>
    compress_loop env u \<lparr>c_quality = dbl (9 / 10), c_manipulated = None, c_trail = []\<rparr>
      = Some (Inl e') \<longrightarrow>
      (\<exists>s'. extractText_v2 env u s = Some s' \<and>
         (\<exists>rest. requests s' = requests s @ ocr_request b64 # rest) \<and>
         warnings s' = warnings s @
           [js ''Image compression step failed, continuing with original image:''] \<and>
         \<not> loading s'))"
proof (intro conjI impI)
  assume "manipulateAsync env u [Resize 1280] (jpeg_options (dbl (7 / 10))) = Inl e"
  then show "sizeReducer env u = Some (Inl e)" by (rule sizeReducer_first_rejected)
next
  assume "sizeReducer env u = Some (Inl e)"
  then show "\<exists>s'. extractText env u s = Some s' \<and>
         requests s' = requests s \<and>
         errors s' = errors s @ [e] \<and>
         alerts s' = alerts s @ [(js ''Error'', js ''Failed to extract text.'')] \<and>
         \<not> loading s'"
    by (simp add: extractText_reduction_failed start_run_def)
next
  let ?w = "js ''Image compression step failed, continuing with original image:''"
  assume a: "readAsStringAsync env u = Inr b64 \<and> maxBytes < calcBytes b64 \<and>
    compress_loop env u \<lparr>c_quality = dbl (9 / 10), c_manipulated = None, c_trail = []\<rparr>
      = Some (Inl e')"
  let ?s2 = "(start_run s)\<lparr>warnings := warnings (start_run s) @ [?w]\<rparr>"
  have "payload_v2 env u b64 (start_run s) = Some (b64, ?s2)"
    using a by (simp add: payload_v2_threw)
  then have run: "extractText_v2 env u s = Some (ocr_stage env b64 ?s2)"
    using a by (simp add: extractText_v2_reaches_ocr)
  obtain rest where "requests (ocr_stage env b64 ?s2) = requests ?s2 @ ocr_request b64 # rest"
    using ocr_stage_requests by blast
  then have "requests (ocr_stage env b64 ?s2) = requests s @ ocr_request b64 # rest"
    by (simp add: start_run_def)
  moreover have "warnings (ocr_stage env b64 ?s2) = warnings s @ [?w]"
    by (simp add: ocr_stage_warnings start_run_def)
  ultimately show "\<exists>s'. extractText_v2 env u s = Some s' \<and>
         (\<exists>rest. requests s' = requests s @ ocr_request b64 # rest) \<and>
         warnings s' = warnings s @ [?w] \<and> \<not> loading s'"
    using run loading_ocr_stage by blast
qed

text \<open>
  An instance: in \<open>throwing_env\<close> the manipulator rejects every call.
\<close>

theorem encoding_failure_handling_witness:
  "manipulateAsync throwing_env [] [Resize 1280] (jpeg_options (dbl (7 / 10))) =
     Inl (Rejected (js ''Could not decode image'')) \<and>
   sizeReducer throwing_env [] = Some (Inl (Rejected (js ''Could not decode image''))) \<and>
   (\<exists>s'. extractText throwing_env [] initial_ui = Some s' \<and>
      requests s' = [] \<and>
      errors s' = [Rejected (js ''Could not decode image'')] \<and>
      alerts s' = [(js ''Error'', js ''Failed to extract text.'')] \<and>
      \<not> loading s') \<and>
   readAsStringAsync throwing_env [] = Inr big_original \<and>
   maxBytes < calcBytes big_original \<and>
   (\<exists>s'. extractText_v2 throwing_env [] initial_ui = Some s' \<and>
      (\<exists>rest. requests s' = ocr_request big_original # rest) \<and>
      warnings s' = [js ''Image compression step failed, continuing with original image:''] \<and>
      \<not> loading s')"
proof -
  let ?e = "Rejected (js ''Could not decode image'')"
  have rej: "manipulateAsync throwing_env [] [Resize 1280] (jpeg_options (dbl (7 / 10))) = Inl ?e"
    by (simp add: throwing_env_def sample_env_def reject_all_def)
  note th = encoding_failure_handling [of throwing_env "[]" ?e initial_ui big_original ?e]
  from th rej have red: "sizeReducer throwing_env [] = Some (Inl ?e)" by blast
  with th have first: "\<exists>s'. extractText throwing_env [] initial_ui = Some s' \<and>
         requests s' = requests initial_ui \<and>
         errors s' = errors initial_ui @ [?e] \<and>
         alerts s' = alerts initial_ui @ [(js ''Error'', js ''Failed to extract text.'')] \<and>
         \<not> loading s'" by blast
  have hyp: "readAsStringAsync throwing_env [] = Inr big_original \<and>
      maxBytes < calcBytes big_original \<and>
      compress_loop throwing_env [] \<lparr>c_quality = dbl (9 / 10), c_manipulated = None, c_trail = []\<rparr>
        = Some (Inl ?e)"
    by (simp add: throwing_env_facts throwing_env_run)
  with th have second: "\<exists>s'. extractText_v2 throwing_env [] initial_ui = Some s' \<and>
         (\<exists>rest. requests s' = requests initial_ui @ ocr_request big_original # rest) \<and>
         warnings s' = warnings initial_ui @
           [js ''Image compression step failed, continuing with original image:''] \<and>
         \<not> loading s'" by blast
  show ?thesis
    using rej red first second hyp by (simp add: initial_ui_def)
qed


text \<open>
  Claim C5. In a run in which the OCR stage yields the empty string, no analysis request
  is made; the run does not enter the \<open>catch\<close> clause (no error is logged), the alert
  "No text detected" is shown, and the busy flag is cleared. The first conjunct is the
  first listing, the second conjunct the second listing.
\<close>

theorem empty_text_stops_pipeline:
  "(sizeReducer env u = Some (Inr r) \<and> readAsStringAsync env (r_uri r) = Inr b64 \<and>
    ocr_text env b64 = Inr [] \<longrightarrow>
      (\<exists>s'. extractText env u s = Some s' \<and>
         requests s' = requests s @ [ocr_request b64] \<and>
         (\<forall>t. analyze_request t \<notin> set (requests s') - set (requests s)) \<and>
         errors s' = errors s \<and>
         alerts s' = alerts s @
           [(js ''No text detected'', js ''Try another image with clearer text.'')] \<and>
         extractedText s' = [] \<and> aiResult s' = JStr [] \<and> \<not> loading s'))
   \<and>
   (readAsStringAsync env u = Inr b64' \<and> payload_v2 env u b64' (start_run s) = Some (p, s2) \<and>
    ocr_text env p = Inr [] \<longrightarrow>
      (\<exists>s'. extractText_v2 env u s = Some s' \<and>
         requests s' = requests s @ [ocr_request p] \<and>
         (\<forall>t. analyze_request t \<notin> set (requests s') - set (requests s)) \<and>
         errors s' = errors s \<and>
         alerts s' = alerts s @
           [(js ''No text detected'', js ''Try another image with clearer text.'')] \<and>
         extractedText s' = [] \<and> aiResult s' = JStr [] \<and> \<not> loading s'))"
proof (intro conjI impI)
  assume "sizeReducer env u = Some (Inr r) \<and> readAsStringAsync env (r_uri r) = Inr b64 \<and>
    ocr_text env b64 = Inr []"
  then have "extractText env u s = Some (ocr_stage env b64 (start_run s))"
    and "ocr_text env b64 = Inr []"
    by (simp_all add: extractText_reaches_ocr)
  then show "\<exists>s'. extractText env u s = Some s' \<and>
         requests s' = requests s @ [ocr_request b64] \<and>
         (\<forall>t. analyze_request t \<notin> set (requests s') - set (requests s)) \<and>
         errors s' = errors s \<and>
         alerts s' = alerts s @
           [(js ''No text detected'', js ''Try another image with clearer text.'')] \<and>
         extractedText s' = [] \<and> aiResult s' = JStr [] \<and> \<not> loading s'"
    by (simp add: ocr_stage_no_text start_run_def request_kinds_differ)
next
  assume a: "readAsStringAsync env u = Inr b64' \<and>
    payload_v2 env u b64' (start_run s) = Some (p, s2) \<and> ocr_text env p = Inr []"
  then have run: "extractText_v2 env u s = Some (ocr_stage env p s2)"
    by (simp add: extractText_v2_reaches_ocr)
  have "s2\<lparr>warnings := warnings (start_run s)\<rparr> = start_run s"
    using payload_v2_total [of env u b64' "start_run s"] a by auto
  then have same: "requests s2 = requests s" "errors s2 = errors s" "alerts s2 = alerts s"
    "aiResult s2 = JStr []"
    by (cases s2; simp add: start_run_def; cases s; simp)+
  show "\<exists>s'. extractText_v2 env u s = Some s' \<and>
         requests s' = requests s @ [ocr_request p] \<and>
         (\<forall>t. analyze_request t \<notin> set (requests s') - set (requests s)) \<and>
         errors s' = errors s \<and>
         alerts s' = alerts s @
           [(js ''No text detected'', js ''Try another image with clearer text.'')] \<and>
         extractedText s' = [] \<and> aiResult s' = JStr [] \<and> \<not> loading s'"
    using run a same by (simp add: ocr_stage_no_text request_kinds_differ)
qed

text \<open>
  An instance: the OCR service answers \<open>{ParsedResults: []}\<close>.
\<close>

theorem empty_text_stops_pipeline_witness:
  "ocr_text (small_env (ok_json empty_reply) (ok_json greeting_reply)) (js ''QUJD'') = Inr [] \<and>
   map_option requests
     (extractText (small_env (ok_json empty_reply) (ok_json greeting_reply)) [] initial_ui) =
     Some [ocr_request (js ''QUJD'')] \<and>
   map_option errors
     (extractText (small_env (ok_json empty_reply) (ok_json greeting_reply)) [] initial_ui) =
     Some [] \<and>
   map_option alerts
     (extractText (small_env (ok_json empty_reply) (ok_json greeting_reply)) [] initial_ui) =
     Some [(js ''No text detected'', js ''Try another image with clearer text.'')] \<and>
   map_option loading
     (extractText (small_env (ok_json empty_reply) (ok_json greeting_reply)) [] initial_ui) =
     Some False \<and>
   map_option requests
     (extractText_v2 (small_env (ok_json empty_reply) (ok_json greeting_reply)) [] initial_ui) =
     Some [ocr_request (js ''QUJD'')] \<and>
   map_option errors
     (extractText_v2 (small_env (ok_json empty_reply) (ok_json greeting_reply)) [] initial_ui) =
     Some []"
proof -
  let ?env = "small_env (ok_json empty_reply) (ok_json greeting_reply)"
  let ?r = "\<lparr>r_uri = [0x78], r_size = 500000, r_quality = dbl (6 / 10),
             r_trail = [(dbl (7 / 10), 500000)]\<rparr>"
  have no_text: "ocr_text ?env (js ''QUJD'') = Inr []"
    by (simp add: small_env_ocr_text parsedText_empty_reply)
  have first: "sizeReducer ?env [] = Some (Inr ?r) \<and>
      readAsStringAsync ?env (r_uri ?r) = Inr (js ''QUJD'') \<and>
      ocr_text ?env (js ''QUJD'') = Inr []"
    using no_text by (simp add: small_env_reduced small_env_read)
  have second: "readAsStringAsync ?env [] = Inr (js ''QUJD'') \<and>
      payload_v2 ?env [] (js ''QUJD'') (start_run initial_ui) = Some (js ''QUJD'', start_run initial_ui) \<and>
      ocr_text ?env (js ''QUJD'') = Inr []"
    using no_text by (simp add: small_env_read small_env_payload_v2)
  show ?thesis
    using empty_text_stops_pipeline
         [of ?env "[]" ?r "js ''QUJD''" initial_ui "js ''QUJD''" "js ''QUJD''" "start_run initial_ui"]
       first second no_text
    by (auto simp: initial_ui_def)
qed


text \<open>
  Claim C6. For a response that is not \<open>null\<close>, the extracted text is the empty string
  when \<open>ParsedResults\<close> is missing, when it is the empty array and when its first
  element has no \<open>ParsedText\<close>; when \<open>ParsedText\<close> is a string the result is that
  string trimmed, which is the empty string when nothing but white space was there. The
  trimmed string is the original without a prefix and a suffix of white space, and does
  not begin or end with white space. In every case the result is a value (\<open>Inr\<close>),
  not an error.
\<close>

theorem parsedText_extraction_rule:
  assumes "data \<noteq> JNull"
  shows "(get_prop (js ''ParsedResults'') data = None \<longrightarrow> parsedText data = Inr []) \<and>
         (get_prop (js ''ParsedResults'') data = Some (JArr []) \<longrightarrow> parsedText data = Inr []) \<and>
         (get_prop (js ''ParsedResults'') data = Some (JArr (first # rest)) \<and>
          get_prop (js ''ParsedText'') first = None \<longrightarrow> parsedText data = Inr []) \<and>
         (get_prop (js ''ParsedResults'') data = Some (JArr (first # rest)) \<and>
          get_prop (js ''ParsedText'') first = Some (JStr t) \<longrightarrow>
            parsedText data = Inr (trim t) \<and>
            (\<exists>a b. t = a @ trim t @ b \<and> list_all is_white_space a \<and> list_all is_white_space b) \<and>
            (trim t \<noteq> [] \<longrightarrow>
               \<not> is_white_space (hd (trim t)) \<and> \<not> is_white_space (last (trim t))))"
proof (intro conjI impI)
  assume "get_prop (js ''ParsedResults'') data = None"
  with assms show "parsedText data = Inr []" by (simp add: parsedText_def)
next
  assume "get_prop (js ''ParsedResults'') data = Some (JArr [])"
  with assms show "parsedText data = Inr []" by (simp add: parsedText_def)
next
  assume "get_prop (js ''ParsedResults'') data = Some (JArr (first # rest)) \<and>
          get_prop (js ''ParsedText'') first = None"
  with assms show "parsedText data = Inr []"
    by (cases first) (simp_all add: parsedText_def)
next
  assume a: "get_prop (js ''ParsedResults'') data = Some (JArr (first # rest)) \<and>
          get_prop (js ''ParsedText'') first = Some (JStr t)"
  then have "first \<noteq> JNull" by auto
  with a assms show "parsedText data = Inr (trim t)"
    by (cases first) (simp_all add: parsedText_def)
  show "\<exists>a b. t = a @ trim t @ b \<and> list_all is_white_space a \<and> list_all is_white_space b"
    by (rule trim_decomposition)
next
  assume "trim t \<noteq> []"
  then show "\<not> is_white_space (hd (trim t))" "\<not> is_white_space (last (trim t))"
    using trim_ends by blast+
qed

text \<open>
  Instances: \<open>{}\<close>, \<open>{ParsedResults: []}\<close>, \<open>{ParsedResults: [{}]}\<close>, the text
  " hello world " and a text of two blanks.
\<close>

theorem parsedText_extraction_rule_witness:
  "parsedText (JObj []) = Inr [] \<and>
   parsedText empty_reply = Inr [] \<and>
   parsedText (JObj [(js ''ParsedResults'', JArr [JObj []])]) = Inr [] \<and>
   parsedText hello_reply = Inr (js ''hello world'') \<and>
   parsedText (JObj [(js ''ParsedResults'', JArr [JObj [(js ''ParsedText'', JStr (js ''  ''))]])])
     = Inr []"
proof -
  have "parsedText (JObj []) = Inr []"
    using parsedText_extraction_rule [of "JObj []"] by simp
  moreover have "parsedText empty_reply = Inr []"
    using parsedText_extraction_rule [of empty_reply] by (simp add: empty_reply_def)
  moreover have "parsedText (JObj [(js ''ParsedResults'', JArr [JObj []])]) = Inr []"
    using parsedText_extraction_rule
            [of "JObj [(js ''ParsedResults'', JArr [JObj []])]" "JObj []" "[]"]
    by simp
  moreover have "parsedText hello_reply = Inr (js ''hello world'')"
    using parsedText_extraction_rule
            [of hello_reply "JObj [(js ''ParsedText'', JStr (js '' hello world ''))]" "[]"
                "js '' hello world ''"]
    by (simp add: hello_reply_def) (simp add: js_def trim_def is_white_space_def)
  moreover have
    "parsedText (JObj [(js ''ParsedResults'', JArr [JObj [(js ''ParsedText'', JStr (js ''  ''))]])])
       = Inr []"
    using parsedText_extraction_rule
            [of "JObj [(js ''ParsedResults'', JArr [JObj [(js ''ParsedText'', JStr (js ''  ''))]])]"
                "JObj [(js ''ParsedText'', JStr (js ''  ''))]" "[]" "js ''  ''"]
    by simp (simp add: js_def trim_def is_white_space_def)
  ultimately show ?thesis by simp
qed


text \<open>
  Claim C7. When the analysis response is JSON other than \<open>null\<close> and has no
  \<open>result\<close> field, \<open>analyzeWithAI\<close> stores exactly "No result from AI." as the
  explanation; nothing is logged as an error, no alert is shown, one request has been
  made and the busy flag is cleared.
\<close>

theorem absent_result_gives_fallback:
  assumes "fetch env (analyze_request t) = Inr res" and "json_body res = Inr data"
    and "data \<noteq> JNull" and "get_prop (js ''result'') data = None"
  shows "aiResult (analyzeWithAI env t s) = JStr (js ''No result from AI.'') \<and>
         errors (analyzeWithAI env t s) = errors s \<and>
         alerts (analyzeWithAI env t s) = alerts s \<and>
         requests (analyzeWithAI env t s) = requests s @ [analyze_request t] \<and>
         \<not> loading (analyzeWithAI env t s)"
  using assms by (simp add: analyzeWithAI_falsy)

text \<open>
  An instance: the analysis service answers \<open>{}\<close>.
\<close>

theorem absent_result_gives_fallback_witness:
  "get_prop (js ''result'') (JObj []) = None \<and>
   aiResult (analyzeWithAI (small_env (ok_json hello_reply) (ok_json (JObj []))) (js ''hello world'')
     initial_ui) = JStr (js ''No result from AI.'') \<and>
   errors (analyzeWithAI (small_env (ok_json hello_reply) (ok_json (JObj []))) (js ''hello world'')
     initial_ui) = [] \<and>
   alerts (analyzeWithAI (small_env (ok_json hello_reply) (ok_json (JObj []))) (js ''hello world'')
     initial_ui) = []"
  using absent_result_gives_fallback
          [of "small_env (ok_json hello_reply) (ok_json (JObj []))" "js ''hello world''"
              "\<lparr>status = 200, json_body = Inr (JObj [])\<rparr>" "JObj []" initial_ui]
  by (simp add: small_env_def sample_env_def analyze_request_def ok_json_def initial_ui_def)


text \<open>
  Claim C8 does not hold of the source. Every run ends with the busy flag cleared, and
  the flag is up in \<open>Reducing\<close> and \<open>ExtractingText\<close>; but it is down in
  \<open>Explaining\<close>. The call \<open>analyzeWithAI(text)\<close> (lines 124 and 378) is not awaited:
  it raises the flag (lines 139 and 393) and waits for its response, and the \<open>finally\<close>
  clause of \<open>extractText\<close> (lines 131 to 133, and 385 to 387) clears the flag at once,
  while the analysis request is in flight. A run of either listing on an image whose OCR
  text is \<open>hello world\<close>: in \<open>Explaining\<close> both requests have been sent, no answer of
  the analysis is there yet, and the flag is down.
\<close>

theorem busy_flag_down_while_explaining:
  "extractText_states (small_env (ok_json hello_reply) (ok_json greeting_reply)) [] initial_ui =
     Some [(Idle,
            \<lparr>extractedText = [], aiResult = JStr [], loading = False, alerts = [], errors = [],
             warnings = [], requests = []\<rparr>),
           (Reducing,
            \<lparr>extractedText = [], aiResult = JStr [], loading = True, alerts = [], errors = [],
             warnings = [], requests = []\<rparr>),
           (ExtractingText,
            \<lparr>extractedText = [], aiResult = JStr [], loading = True, alerts = [], errors = [],
             warnings = [], requests = [ocr_request (js ''QUJD'')]\<rparr>),
           (Explaining,
            \<lparr>extractedText = js ''hello world'', aiResult = JStr [], loading = False,
             alerts = [], errors = [], warnings = [],
             requests = [ocr_request (js ''QUJD''), analyze_request (js ''hello world'')]\<rparr>),
           (Done,
            \<lparr>extractedText = js ''hello world'', aiResult = JStr (js ''A greeting.''),
             loading = False, alerts = [], errors = [], warnings = [],
             requests = [ocr_request (js ''QUJD''), analyze_request (js ''hello world'')]\<rparr>)] \<and>
   map_option busy_by_state
     (extractText_states (small_env (ok_json hello_reply) (ok_json greeting_reply)) [] initial_ui) =
     Some [(Idle, False), (Reducing, True), (ExtractingText, True), (Explaining, False),
           (Done, False)] \<and>
   map_option busy_by_state
     (extractText_v2_states (small_env (ok_json hello_reply) (ok_json greeting_reply)) []
        initial_ui) =
     Some [(Idle, False), (Reducing, True), (ExtractingText, True), (Explaining, False),
           (Done, False)] \<and>
   extractText (small_env (ok_json hello_reply) (ok_json greeting_reply)) [] initial_ui =
     Some \<lparr>extractedText = js ''hello world'', aiResult = JStr (js ''A greeting.''),
           loading = False, alerts = [], errors = [], warnings = [],
           requests = [ocr_request (js ''QUJD''), analyze_request (js ''hello world'')]\<rparr>"
proof -
  let ?env = "small_env (ok_json hello_reply) (ok_json greeting_reply)"
  have trace: "extractText_states ?env [] initial_ui =
     Some ((Idle, initial_ui) # (Reducing, start_run initial_ui) #
           ocr_states ?env (js ''QUJD'') (start_run initial_ui))"
    by (rule small_env_states)
  have trace2: "extractText_v2_states ?env [] initial_ui =
     Some ((Idle, initial_ui) # (Reducing, start_run initial_ui) #
           ocr_states ?env (js ''QUJD'') (start_run initial_ui))"
    by (rule small_env_v2_states)
  have first: "extractText_states ?env [] initial_ui =
     Some [(Idle,
            \<lparr>extractedText = [], aiResult = JStr [], loading = False, alerts = [], errors = [],
             warnings = [], requests = []\<rparr>),
           (Reducing,
            \<lparr>extractedText = [], aiResult = JStr [], loading = True, alerts = [], errors = [],
             warnings = [], requests = []\<rparr>),
           (ExtractingText,
            \<lparr>extractedText = [], aiResult = JStr [], loading = True, alerts = [], errors = [],
             warnings = [], requests = [ocr_request (js ''QUJD'')]\<rparr>),
           (Explaining,
            \<lparr>extractedText = js ''hello world'', aiResult = JStr [], loading = False,
             alerts = [], errors = [], warnings = [],
             requests = [ocr_request (js ''QUJD''), analyze_request (js ''hello world'')]\<rparr>),
           (Done,
            \<lparr>extractedText = js ''hello world'', aiResult = JStr (js ''A greeting.''),
             loading = False, alerts = [], errors = [], warnings = [],
             requests = [ocr_request (js ''QUJD''), analyze_request (js ''hello world'')]\<rparr>)]"
    unfolding trace small_env_ocr_states by (simp add: start_run_def initial_ui_def)
  have busy: "map_option busy_by_state (extractText_states ?env [] initial_ui) =
     Some [(Idle, False), (Reducing, True), (ExtractingText, True), (Explaining, False),
           (Done, False)]"
    unfolding first by simp
  have busy2: "map_option busy_by_state (extractText_v2_states ?env [] initial_ui) =
     Some [(Idle, False), (Reducing, True), (ExtractingText, True), (Explaining, False),
           (Done, False)]"
    unfolding trace2 by (simp add: small_env_busy) (simp add: start_run_def initial_ui_def)
  have final: "extractText ?env [] initial_ui =
     Some \<lparr>extractedText = js ''hello world'', aiResult = JStr (js ''A greeting.''),
           loading = False, alerts = [], errors = [], warnings = [],
           requests = [ocr_request (js ''QUJD''), analyze_request (js ''hello world'')]\<rparr>"
    using extractText_states_last [of ?env "[]" initial_ui] unfolding first by simp
  show ?thesis using first busy busy2 final by (intro conjI)
qed





text \<open>
  Claim C10. When the analysis response has a \<open>result\<close> field that is the empty
  string, \<open>analyzeWithAI\<close> stores "No result from AI.", and the whole resulting state
  equals the one reached when the field is absent.
\<close>

theorem empty_result_gives_fallback:
  assumes "fetch env (analyze_request t) = Inr res" and "json_body res = Inr data"
    and "get_prop (js ''result'') data = Some (JStr [])"
    and "fetch env' (analyze_request t) = Inr res'" and "json_body res' = Inr data'"
    and "data' \<noteq> JNull" and "get_prop (js ''result'') data' = None"
  shows "aiResult (analyzeWithAI env t s) = JStr (js ''No result from AI.'') \<and>
         analyzeWithAI env t s = analyzeWithAI env' t s"
proof -
  have "data \<noteq> JNull" using assms(3) by auto
  then have "analyzeWithAI env t s =
           s\<lparr>aiResult := JStr (js ''No result from AI.''),
             requests := requests s @ [analyze_request t], loading := False\<rparr>"
    using assms(1-3) by (simp add: analyzeWithAI_falsy)
  moreover have "analyzeWithAI env' t s =
           s\<lparr>aiResult := JStr (js ''No result from AI.''),
             requests := requests s @ [analyze_request t], loading := False\<rparr>"
    using assms(4-7) by (simp add: analyzeWithAI_falsy)
  ultimately show ?thesis by simp
qed

text \<open>
  An instance: the analysis service answers \<open>{result: ""}\<close>, compared with \<open>{}\<close>.
\<close>

theorem empty_result_gives_fallback_witness:
  "get_prop (js ''result'') (JObj [(js ''result'', JStr [])]) = Some (JStr []) \<and>
   aiResult (analyzeWithAI (small_env (ok_json hello_reply) (ok_json (JObj [(js ''result'', JStr [])])))
     (js ''hello world'') initial_ui) = JStr (js ''No result from AI.'') \<and>
   analyzeWithAI (small_env (ok_json hello_reply) (ok_json (JObj [(js ''result'', JStr [])])))
     (js ''hello world'') initial_ui =
   analyzeWithAI (small_env (ok_json hello_reply) (ok_json (JObj []))) (js ''hello world'') initial_ui"
proof -
  let ?empty = "JObj [(js ''result'', JStr [])]"
  have present: "get_prop (js ''result'') ?empty = Some (JStr [])" by simp
  have absent: "get_prop (js ''result'') (JObj []) = None" by simp
  have reply: "fetch (small_env ocr (ok_json j)) (analyze_request t) =
      Inr \<lparr>status = 200, json_body = Inr j\<rparr>" for ocr j t
    by (simp add: small_env_def sample_env_def analyze_request_def ok_json_def)
  have body: "json_body \<lparr>status = 200, json_body = Inr j\<rparr> = Inr j" for j :: json
    by simp
  have not_null: "JObj [] \<noteq> JNull" by simp
  from empty_result_gives_fallback [OF reply body present reply body not_null absent] present
  show ?thesis by blast
qed

end
